theory Spec2Isabelle
  imports Complex_Main "HOL-Library.AList"
begin

section \<open>The detection session controller (class PokemonCardDetector)\<close>

text \<open>
  A shallow embedding of the browser-side controller: the detection cache
  (\<open>detectedCards\<close>, a JavaScript \<open>Map\<close> in insertion order), the capture
  scheduler, the recognition request with its in-flight flag, the overlay renderer and the
  WebSocket channel with heartbeat and reconnect. The controller is single-threaded; every
  callback of the source (a timer firing, a promise settling, a socket event, a click) is
  one atomic step of the model.
\<close>

subsection \<open>JavaScript strings and template literals\<close>

text \<open>
  Strings are byte strings; \<open>toLowerCase\<close> and \<open>trim\<close> are modelled on the ASCII
  range (letters A to Z; tab, line feed, vertical tab, form feed, carriage return, space).
  No proof about the cache unfolds \<open>toLowerCase\<close>: they hold for any case folding.
\<close>

definition lowerChar :: "char \<Rightarrow> char" where
  "lowerChar c =
     (case map_of (zip ''ABCDEFGHIJKLMNOPQRSTUVWXYZ'' ''abcdefghijklmnopqrstuvwxyz'') c of
        Some l \<Rightarrow> l
      | None \<Rightarrow> c)"

definition toLowerCase :: "string \<Rightarrow> string" where
  "toLowerCase s = map lowerChar s"

definition isSpace :: "char \<Rightarrow> bool" where
  "isSpace c = ((of_char c :: nat) \<in> {9, 10, 11, 12, 13, 32})"

definition trim :: "string \<Rightarrow> string" where
  "trim s = rev (dropWhile isSpace (rev (dropWhile isSpace s)))"

text \<open>A string is truthy when it is not empty; an absent (undefined or null) field is falsy.\<close>

definition truthy :: "string option \<Rightarrow> bool" where
  "truthy v = (case v of None \<Rightarrow> False | Some s \<Rightarrow> s \<noteq> [])"

text \<open>\<open>v || d\<close> on an optional string.\<close>

definition orElse :: "string option \<Rightarrow> string \<Rightarrow> string" where
  "orElse v d = (case v of None \<Rightarrow> d | Some s \<Rightarrow> if s \<noteq> [] then s else d)"

text \<open>Interpolation of a non-negative integer in a template literal: its decimal digits.\<close>

definition digit :: "nat \<Rightarrow> char" where
  "digit d = ''0123456789'' ! d"

function decimal :: "nat \<Rightarrow> string" where
  "decimal n = (if n < 10 then [digit n] else decimal (n div 10) @ [digit (n mod 10)])"
  by pat_completeness auto
termination
  by (relation "measure (\<lambda>n. n)") auto

declare decimal.simps [simp del]

definition showInt :: "int \<Rightarrow> string" where
  "showInt i = (if i < 0 then CHR ''-'' # decimal (nat (- i)) else decimal (nat i))"

subsection \<open>Data: responses of the recognition service, WebSocket cards, stored cards\<close>

type_synonym point = "real \<times> real"

text \<open>
  One candidate match of a detection (\<open>{ name, card_id, set_id, distance }\<close>). A field
  of a JSON object is \<open>None\<close> when it is missing or null; the text fields are strings
  and the numbers are idealised as reals.
\<close>

record match =
  match_name :: "string option"
  match_card_id :: "string option"
  match_set_id :: "string option"
  match_distance :: "real option"

text \<open>One raw detection of a response (\<open>{ polygon, crop_size, matches }\<close>).\<close>

record detection =
  det_polygon :: "point list option"
  det_crop_size :: "string option"
  det_matches :: "match list option"

text \<open>A card pushed in a WebSocket \<open>detection\<close> message.\<close>

record ws_card =
  ws_name :: string
  ws_confidence :: "real option"
  ws_polygon :: "point list option"
  ws_crop_size :: "string option"
  ws_set :: "string option"
  ws_id :: "string option"
  ws_matches :: "match list option"

text \<open>The object stored in \<open>detectedCards\<close>; \<open>timestamp\<close> is in milliseconds.\<close>

record entity =
  ident :: string
  name :: string
  confidence :: "real option"
  polygon :: "point list option"
  cropSize :: "string option"
  setId :: string
  cardId :: string
  timestamp :: int
  kept :: bool

text \<open>
  The clock and random readings one iteration of a \<open>forEach\<close> body makes:
  \<open>Date.now()\<close> for the identifier, \<open>new Date()\<close> inside \<open>isRecentlyDetected\<close>,
  \<open>new Date()\<close> for the timestamp, and \<open>Math.random().toString(36).substr(2, 9)\<close>.
\<close>

record readings =
  idNow :: int
  checkNow :: int
  stampNow :: int
  rnd :: string

subsection \<open>The message log\<close>

datatype level = Info | Error

text \<open>
  One constructor for each message template the modelled methods log, with the values the
  template interpolates: \<open>RemovedAll n\<close> is \<open>Removed all n detected cards\<close>,
  \<open>NoCardsToRemove\<close> is \<open>No cards to remove\<close>, \<open>BackendProcessingError m\<close> is
  \<open>Backend processing error: m\<close>, \<open>ErrorType n\<close> is \<open>Error type: n\<close>, and so
  on. The clock time that \<open>logMessage\<close> writes in front of each entry is left out.
\<close>

datatype message =
    NoCardsToRemove
  | RemovedAll nat
  | NewCardDetected string "real option"
  | NewCardViaWebSocket string
  | KeptCard string
  | UnkeptCard string
  | RemovedCard string
  | StartedPeriodic nat
  | StoppedPeriodic
  | SpeedUpdated nat
  | CameraStopped
  | CameraError string
  | NoCameraStream
  | AlreadyProcessing
  | SendingRequest
  | ReceivedDetections int
  | BackendProcessingError string
  | ErrorType string
  | ConnectedToServer
  | DisconnectedFromServer
  | AttemptingReconnect
  | WebSocketError string
  | ServerMessage "string option"
  | ProcessingFrame
  | ServerError "string option"
  | NoCardsInFrame
  | DetectedCards nat
  | TestingConnectivity
  | CameraStarted
  | CanvasDimensions
  | VideoDisplaySize

text \<open>The \<open>while\<close> loop of \<open>logMessage\<close>: drop the oldest entry while more than 50 remain.\<close>

function keepLast50 :: "'a list \<Rightarrow> 'a list" where
  "keepLast50 xs = (if length xs > 50 then keepLast50 (tl xs) else xs)"
  by pat_completeness auto
termination
  by (relation "measure length") auto

declare keepLast50.simps [simp del]

subsection \<open>Browser objects: timers, sockets, the canvas\<close>

text \<open>The closures the source hands to \<open>setInterval\<close> and \<open>setTimeout\<close>.\<close>

datatype callback =
    CaptureTick
  | CaptureDelay
  | HealthCheck
  | Heartbeat
  | Reconnect
  | ConnectivityTest

record timer =
  callback :: callback
  delay :: real
  repeats :: bool

datatype readyState = CONNECTING | OPEN | CLOSING

datatype drawOp =
    ClearRect
  | BeginPath
  | MoveTo real real
  | LineTo real real
  | ClosePath
  | Fill string
  | Stroke string real
  | FillRect string real real real real
  | FillText string string string real real

text \<open>The 2D context of the overlay canvas: the current font and what has been drawn.\<close>

record context2d =
  font :: string
  ops :: "drawOp list"

subsection \<open>The controller's state\<close>

text \<open>
  The fields of the class, followed by the browser state its callbacks live in:
  the timer table (handle to timer), the sockets that are not closed yet, the queued
  animation-frame callbacks, the pending \<open>toBlob\<close> callbacks and the number of
  recognition requests that have been issued and have not settled.
\<close>

record detector =
  stream :: bool
  ws :: "nat option"
  isConnected :: bool
  detectedCards :: "(string \<times> entity) list"
  isProcessing :: bool
  processingInterval :: "nat option"
  healthCheckInterval :: "nat option"
  heartbeatInterval :: "nat option"
  messageLog :: "(message \<times> level) list"
  overlay :: context2d
  timers :: "(nat \<times> timer) list"
  nextHandle :: nat
  sockets :: "(nat \<times> readyState) list"
  nextSocket :: nat
  animationFrames :: "(point list option \<times> match list option) list list"
  pendingBlobs :: nat
  inFlight :: nat


subsection \<open>Logging, timers, the Map\<close>

definition logMessage :: "message \<Rightarrow> level \<Rightarrow> detector \<Rightarrow> detector" where
  "logMessage m l s = s\<lparr>messageLog := keepLast50 (messageLog s @ [(m, l)])\<rparr>"

text \<open>Both return the new handle; handles are positive, so a stored handle is truthy.\<close>

definition setInterval :: "callback \<Rightarrow> real \<Rightarrow> detector \<Rightarrow> nat \<times> detector" where
  "setInterval cb d s =
     (nextHandle s,
      s\<lparr>timers := timers s @ [(nextHandle s, \<lparr>callback = cb, delay = d, repeats = True\<rparr>)],
        nextHandle := nextHandle s + 1\<rparr>)"

definition setTimeout :: "callback \<Rightarrow> real \<Rightarrow> detector \<Rightarrow> nat \<times> detector" where
  "setTimeout cb d s =
     (nextHandle s,
      s\<lparr>timers := timers s @ [(nextHandle s, \<lparr>callback = cb, delay = d, repeats = False\<rparr>)],
        nextHandle := nextHandle s + 1\<rparr>)"

definition clearInterval :: "nat \<Rightarrow> detector \<Rightarrow> detector" where
  "clearInterval h s = s\<lparr>timers := filter (\<lambda>t. fst t \<noteq> h) (timers s)\<rparr>"

text \<open>
  \<open>Map.set\<close> replaces the value of a key that is present, in place, and appends a new key:
  this is \<open>AList.update\<close>. \<open>Map.delete\<close> is \<open>AList.delete\<close>, \<open>Map.get\<close> is
  \<open>map_of\<close>, and \<open>Array.from(m.values())\<close> is \<open>map snd\<close>.
\<close>

definition mapValues :: "(string \<times> entity) list \<Rightarrow> entity list" where
  "mapValues m = map snd m"

subsection \<open>The overlay\<close>

definition clearOverlay :: "detector \<Rightarrow> detector" where
  "clearOverlay s = s\<lparr>overlay := (overlay s)\<lparr>ops := ops (overlay s) @ [ClearRect]\<rparr>\<rparr>"

text \<open>
  \<open>drawDetectionOverlay\<close> only queues its closure with \<open>requestAnimationFrame\<close>; of each
  detection the closure reads \<open>polygon\<close> and \<open>matches\<close>.
\<close>

definition drawDetectionOverlay ::
  "(point list option \<times> match list option) list \<Rightarrow> detector \<Rightarrow> detector" where
  "drawDetectionOverlay detections s = s\<lparr>animationFrames := animationFrames s @ [detections]\<rparr>"

text \<open>The label of a drawn detection (lines 744 to 752 of the source).\<close>

definition overlayLabel :: "nat \<Rightarrow> match list option \<Rightarrow> string" where
  "overlayLabel index ms =
     (case ms of
        Some (bestMatch # _) \<Rightarrow>
          if truthy (match_name bestMatch) \<and> trim (the (match_name bestMatch)) \<noteq> []
          then trim (the (match_name bestMatch))
          else if truthy (match_card_id bestMatch) \<and> trim (the (match_card_id bestMatch)) \<noteq> []
          then trim (the (match_card_id bestMatch))
          else ''Card '' @ decimal (index + 1)
      | _ \<Rightarrow> ''Card '' @ decimal (index + 1))"

text \<open>
  The body of the closure's \<open>forEach\<close>. \<open>measureText\<close> is \<open>ctx.measureText(text).width\<close>
  under the font the context has at that moment.
\<close>

definition drawDetection ::
  "(string \<Rightarrow> string \<Rightarrow> real) \<Rightarrow> nat \<Rightarrow> point list option \<times> match list option
     \<Rightarrow> context2d \<Rightarrow> context2d" where
  "drawDetection measureText index det ctx =
     (case fst det of
        Some ((x, y) # rest) \<Rightarrow>
          (let cardName = overlayLabel index (snd det);
               textWidth = measureText (font ctx) cardName;
               textHeight = 20
           in ctx\<lparr>ops := ops ctx
                    @ [BeginPath, MoveTo x y] @ map (\<lambda>p. LineTo (fst p) (snd p)) rest
                    @ [ClosePath,
                       Fill ''rgba(16, 185, 129, 0.1)'',
                       Stroke ''#10b981'' 3,
                       FillRect ''rgba(16, 185, 129, 0.9)'' (x - 10) (y - 35)
                         (textWidth + 20) (textHeight + 10),
                       FillText ''#ffffff'' ''bold 14px Arial'' cardName (x + textWidth / 2) (y - 20),
                       FillRect ''#10b981'' (x - 25) (y - 25) 30 30,
                       FillText ''#ffffff'' ''bold 16px Arial'' (decimal (index + 1)) (x - 10) (y - 8)],
                  font := ''bold 16px Arial''\<rparr>)
      | _ \<Rightarrow> ctx)"

fun drawEach ::
  "(string \<Rightarrow> string \<Rightarrow> real) \<Rightarrow> nat \<Rightarrow> (point list option \<times> match list option) list
     \<Rightarrow> context2d \<Rightarrow> context2d" where
  "drawEach measureText index [] ctx = ctx"
| "drawEach measureText index (det # dets) ctx =
     drawEach measureText (index + 1) dets (drawDetection measureText index det ctx)"

text \<open>The closure of \<open>drawDetectionOverlay\<close>, run at the animation frame.\<close>

definition renderPass ::
  "(string \<Rightarrow> string \<Rightarrow> real) \<Rightarrow> (point list option \<times> match list option) list
     \<Rightarrow> context2d \<Rightarrow> context2d" where
  "renderPass measureText detections ctx =
     (let ctx1 = ctx\<lparr>ops := ops ctx @ [ClearRect]\<rparr>
      in if detections = [] then ctx1 else drawEach measureText 0 detections ctx1)"

subsection \<open>The detection cache\<close>

definition isRecentlyDetected :: "int \<Rightarrow> string \<Rightarrow> int \<Rightarrow> detector \<Rightarrow> bool" where
  "isRecentlyDetected now cardName cooldownMinutes s =
     (let cooldownMs = cooldownMinutes * 60 * 1000
      in list_ex (\<lambda>card. if toLowerCase (name card) = toLowerCase cardName
                          then now - timestamp card < cooldownMs else False)
           (mapValues (detectedCards s)))"

text \<open>The card name of a best match (lines 427 to 434 of the source).\<close>

definition resolveCardName :: "match \<Rightarrow> string" where
  "resolveCardName bestMatch =
     (if truthy (match_name bestMatch) \<and> trim (the (match_name bestMatch)) \<noteq> []
      then trim (the (match_name bestMatch))
      else if truthy (match_card_id bestMatch) \<and> trim (the (match_card_id bestMatch)) \<noteq> []
      then trim (the (match_card_id bestMatch))
      else if truthy (match_set_id bestMatch) \<and> trim (the (match_set_id bestMatch)) \<noteq> []
      then trim (the (match_set_id bestMatch))
      else ''Unknown Card'')"

text \<open>
  The body of the \<open>forEach\<close> of \<open>handleBackendResponse\<close>. The calls of
  \<open>updateCardCollection\<close>, here and below, rebuild the list on the page from the Map
  and change nothing in the state.
\<close>

definition processDetection :: "readings \<Rightarrow> nat \<Rightarrow> detection \<Rightarrow> detector \<Rightarrow> detector" where
  "processDetection r index det s =
     (case det_matches det of
        Some (bestMatch # _) \<Rightarrow>
          (let cardName = resolveCardName bestMatch;
               conf = match_distance bestMatch;
               cardId = ''card_'' @ showInt (idNow r) @ ''_'' @ decimal index;
               existingCard = find (\<lambda>card. toLowerCase (name card) = toLowerCase cardName)
                                (mapValues (detectedCards s));
               recentlyDetected = isRecentlyDetected (checkNow r) cardName 2 s
           in if existingCard = None \<and> \<not> recentlyDetected
              then logMessage (NewCardDetected cardName conf) Info
                     (s\<lparr>detectedCards := AList.update cardId
                          \<lparr>ident = cardId, name = cardName, confidence = conf,
                           polygon = det_polygon det, cropSize = det_crop_size det,
                           setId = orElse (match_set_id bestMatch) ''Unknown Set'',
                           cardId = orElse (match_card_id bestMatch) ''Unknown ID'',
                           timestamp = stampNow r, kept = False\<rparr>
                          (detectedCards s)\<rparr>)
              else s)
      | _ \<Rightarrow> s)"

fun processEach :: "(nat \<Rightarrow> readings) \<Rightarrow> nat \<Rightarrow> detection list \<Rightarrow> detector \<Rightarrow> detector" where
  "processEach clk index [] s = s"
| "processEach clk index (det # dets) s =
     processEach clk (index + 1) dets (processDetection (clk index) index det s)"

text \<open>
  A JSON value as JavaScript holds it after parsing. A number is given by the text
  \<open>String(n)\<close> prints for it, which is \<open>0\<close> exactly for zero; of an object only
  the fact that it is one matters here.
\<close>

datatype jsValue =
    JNull
  | JBool bool
  | JNum string
  | JStr string
  | JArr "jsValue list"
  | JObj

text \<open>Truthiness, as \<open>||\<close> tests it.\<close>

fun jsTruthy :: "jsValue \<Rightarrow> bool" where
  "jsTruthy JNull = False"
| "jsTruthy (JBool b) = b"
| "jsTruthy (JNum n) = (n \<noteq> ''0'')"
| "jsTruthy (JStr s) = (s \<noteq> [])"
| "jsTruthy (JArr vs) = True"
| "jsTruthy JObj = True"

text \<open>
  The string conversion that \<open>new Error(v)\<close> applies to its argument: an array joins
  its elements with commas, a null element giving the empty string, and an object is
  \<open>[object Object]\<close>.
\<close>

fun toString :: "jsValue \<Rightarrow> string" and joinElements :: "jsValue list \<Rightarrow> string" where
  "toString JNull = ''null''"
| "toString (JBool b) = (if b then ''true'' else ''false'')"
| "toString (JNum n) = n"
| "toString (JStr s) = s"
| "toString (JArr vs) = joinElements vs"
| "toString JObj = ''[object Object]''"
| "joinElements [] = []"
| "joinElements (v # vs) =
     (if v = JNull then [] else toString v) @ (if vs = [] then [] else '','' @ joinElements vs)"

text \<open>
  A parsed JSON body that is not \<open>null\<close>: the fields the controller reads from it,
  \<open>None\<close> for a field that is not there (a body that is a number, a string, a boolean
  or an array has none of them). \<open>detail\<close> may be any JSON value; the detections are
  typed as the interface of the recognition service gives them.
\<close>

record json =
  detail :: "jsValue option"
  num_detections :: "int option"
  detections :: "detection list option"

definition handleBackendResponse :: "(nat \<Rightarrow> readings) \<Rightarrow> json \<Rightarrow> detector \<Rightarrow> detector" where
  "handleBackendResponse clk data s =
     (case detections data of
        Some (d # ds) \<Rightarrow>
          drawDetectionOverlay (map (\<lambda>x. (det_polygon x, det_matches x)) (d # ds))
            (processEach clk 0 (d # ds) s)
      | _ \<Rightarrow> clearOverlay s)"

text \<open>The body of the \<open>forEach\<close> of \<open>handleDetection\<close>.\<close>

definition addCard :: "readings \<Rightarrow> ws_card \<Rightarrow> detector \<Rightarrow> detector" where
  "addCard r wcard s =
     (let existingCard = find (\<lambda>e. toLowerCase (name e) = toLowerCase (ws_name wcard))
                           (mapValues (detectedCards s));
          recentlyDetected = isRecentlyDetected (checkNow r) (ws_name wcard) 2 s
      in if existingCard = None \<and> \<not> recentlyDetected
         then (let cardId = ''card_'' @ showInt (idNow r) @ ''_'' @ rnd r
               in logMessage (NewCardViaWebSocket (ws_name wcard)) Info
                    (s\<lparr>detectedCards := AList.update cardId
                         \<lparr>ident = cardId, name = ws_name wcard,
                          confidence = Some (case ws_confidence wcard of None \<Rightarrow> 0 | Some c \<Rightarrow> c),
                          polygon = Some (case ws_polygon wcard of None \<Rightarrow> [] | Some p \<Rightarrow> p),
                          cropSize = (if truthy (ws_crop_size wcard) then ws_crop_size wcard else None),
                          setId = orElse (ws_set wcard) ''Unknown Set'',
                          cardId = orElse (ws_id wcard) ''Unknown ID'',
                          timestamp = stampNow r, kept = False\<rparr>
                         (detectedCards s)\<rparr>))
         else s)"

fun addEach :: "(nat \<Rightarrow> readings) \<Rightarrow> nat \<Rightarrow> ws_card list \<Rightarrow> detector \<Rightarrow> detector" where
  "addEach clk index [] s = s"
| "addEach clk index (wcard # wcards) s = addEach clk (index + 1) wcards (addCard (clk index) wcard s)"

definition handleDetection :: "(nat \<Rightarrow> readings) \<Rightarrow> ws_card list option \<Rightarrow> detector \<Rightarrow> detector" where
  "handleDetection clk cards s =
     (case cards of
        Some (c # cs) \<Rightarrow>
          drawDetectionOverlay (map (\<lambda>x. (ws_polygon x, ws_matches x)) (c # cs))
            (addEach clk 0 (c # cs) (logMessage (DetectedCards (length (c # cs))) Info s))
      | _ \<Rightarrow> logMessage NoCardsInFrame Info s)"

definition removeAllCards :: "detector \<Rightarrow> detector" where
  "removeAllCards s =
     (if length (detectedCards s) = 0 then logMessage NoCardsToRemove Info s
      else (let cardCount = length (detectedCards s)
            in logMessage (RemovedAll cardCount) Info (s\<lparr>detectedCards := []\<rparr>)))"

definition toggleKeepCard :: "string \<Rightarrow> detector \<Rightarrow> detector" where
  "toggleKeepCard key s =
     (case map_of (detectedCards s) key of
        Some stored \<Rightarrow>
          logMessage (if \<not> kept stored then KeptCard (name stored) else UnkeptCard (name stored)) Info
            (s\<lparr>detectedCards := AList.update key (stored\<lparr>kept := \<not> kept stored\<rparr>) (detectedCards s)\<rparr>)
      | None \<Rightarrow> s)"

definition removeCard :: "string \<Rightarrow> detector \<Rightarrow> detector" where
  "removeCard key s =
     (case map_of (detectedCards s) key of
        Some stored \<Rightarrow>
          logMessage (RemovedCard (name stored)) Info
            (s\<lparr>detectedCards := AList.delete key (detectedCards s)\<rparr>)
      | None \<Rightarrow> s)"


subsection \<open>The capture scheduler and the recognition request\<close>

definition stopPeriodicProcessing :: "detector \<Rightarrow> detector" where
  "stopPeriodicProcessing s =
     (case processingInterval s of
        Some h \<Rightarrow> logMessage StoppedPeriodic Info ((clearInterval h s)\<lparr>processingInterval := None\<rparr>)
      | None \<Rightarrow> s)"

text \<open>\<open>fps\<close> is \<open>parseInt(this.processingSpeed.value)\<close>, read from the slider.\<close>

definition startPeriodicProcessing :: "nat \<Rightarrow> detector \<Rightarrow> detector" where
  "startPeriodicProcessing fps s =
     (if \<not> stream s then s
      else (let s1 = (case processingInterval s of Some h \<Rightarrow> clearInterval h s | None \<Rightarrow> s);
                intervalMs = 1000 / real fps
            in case setInterval CaptureTick intervalMs s1 of
                 (h, s2) \<Rightarrow> logMessage (StartedPeriodic fps) Info (s2\<lparr>processingInterval := Some h\<rparr>)))"

definition updateProcessingSpeed :: "nat \<Rightarrow> detector \<Rightarrow> detector" where
  "updateProcessingSpeed fps s =
     logMessage (SpeedUpdated fps) Info
       (if processingInterval s \<noteq> None then startPeriodicProcessing fps s else s)"

text \<open>The \<open>oncanplay\<close> handler that \<open>startCamera\<close> installs.\<close>

definition oncanplay :: "nat \<Rightarrow> detector \<Rightarrow> detector" where
  "oncanplay fps s =
     startPeriodicProcessing fps
       (logMessage VideoDisplaySize Info
          (logMessage CanvasDimensions Info (logMessage CameraStarted Info s)))"

definition stopCamera :: "detector \<Rightarrow> detector" where
  "stopCamera s =
     (if stream s
      then logMessage CameraStopped Info (stopPeriodicProcessing (clearOverlay (s\<lparr>stream := False\<rparr>)))
      else s)"

text \<open>\<open>captureFrame\<close> draws the frame and leaves a \<open>toBlob\<close> callback pending.\<close>

definition captureFrame :: "detector \<Rightarrow> detector" where
  "captureFrame s =
     (if \<not> stream s then logMessage NoCameraStream Error s
      else s\<lparr>pendingBlobs := pendingBlobs s + 1\<rparr>)"

record jsError =
  errName :: string
  errMessage :: string

text \<open>
  The \<open>catch\<close> and \<open>finally\<close> of \<open>processFrameWithBackend\<close>, applied to the
  outcome of its \<open>try\<close> block: \<open>Inl\<close> is a throw, with the state it was thrown in.
\<close>

definition catchFinally :: "jsError \<times> detector + detector \<Rightarrow> detector" where
  "catchFinally outcome =
     (let s1 = (case outcome of
                  Inl (e, s) \<Rightarrow> logMessage (ErrorType (errName e)) Error
                                 (logMessage (BackendProcessingError (errMessage e)) Error s)
                | Inr s' \<Rightarrow> s')
      in s1\<lparr>isProcessing := False\<rparr>)"

text \<open>
  What \<open>canvas.toBlob\<close> hands to its callback: the image, or \<open>null\<close> when the image
  cannot be made. With \<open>null\<close>, \<open>formData.append\<close> throws a \<open>TypeError\<close>, whose
  message the value carries.
\<close>

datatype blob = Blob | NullBlob string

text \<open>
  \<open>processFrameWithBackend\<close> up to its \<open>await fetch(...)\<close>. A throw before the fetch
  goes through \<open>catch\<close> and \<open>finally\<close> at once, and no request is issued.
\<close>

definition processFrameWithBackend :: "blob \<Rightarrow> detector \<Rightarrow> detector" where
  "processFrameWithBackend b s =
     (if isProcessing s then logMessage AlreadyProcessing Info s
      else (case b of
              NullBlob m \<Rightarrow>
                catchFinally (Inl (\<lparr>errName = ''TypeError'', errMessage = m\<rparr>, s\<lparr>isProcessing := True\<rparr>))
            | Blob \<Rightarrow>
                (logMessage SendingRequest Info (s\<lparr>isProcessing := True\<rparr>))
                  \<lparr>inFlight := inFlight s + 1\<rparr>))"

text \<open>
  What the awaited \<open>fetch\<close> settles with: a rejection (the error's name and message), or a
  response with its status and body. A body that is not JSON carries the parser's message;
  the body \<open>null\<close> carries the message of the \<open>TypeError\<close> that reading a property
  of \<open>null\<close> throws.
\<close>

datatype body = NotJson string | JsonNull string | Json json

datatype fetchResult = Rejected string string | Response nat body

definition ok :: "nat \<Rightarrow> bool" where
  "ok status = (200 \<le> status \<and> status \<le> 299)"

text \<open>
  \<open>errorData.detail\<close>, where \<open>errorData\<close> is
  \<open>await response.json().catch(() => ({}))\<close>: the empty object when parsing fails.
\<close>

definition readDetail :: "body \<Rightarrow> jsError + jsValue option" where
  "readDetail b =
     (case b of
        NotJson _ \<Rightarrow> Inr None
      | JsonNull m \<Rightarrow> Inl \<lparr>errName = ''TypeError'', errMessage = m\<rparr>
      | Json errorData \<Rightarrow> Inr (detail errorData))"

text \<open>The message of \<open>new Error(errorData.detail || `HTTP ${response.status}`)\<close>.\<close>

definition errorMessage :: "nat \<Rightarrow> jsValue option \<Rightarrow> string" where
  "errorMessage status errorDetail =
     (case errorDetail of
        Some v \<Rightarrow> if jsTruthy v then toString v else ''HTTP '' @ decimal status
      | None \<Rightarrow> ''HTTP '' @ decimal status)"

text \<open>The rest of the \<open>try\<close> block: \<open>Inl\<close> is a throw.\<close>

definition afterFetch :: "(nat \<Rightarrow> readings) \<Rightarrow> fetchResult \<Rightarrow> detector \<Rightarrow> jsError + detector" where
  "afterFetch clk r s =
     (case r of
        Rejected n m \<Rightarrow> Inl \<lparr>errName = n, errMessage = m\<rparr>
      | Response status b \<Rightarrow>
          if \<not> ok status
          then (case readDetail b of
                  Inl e \<Rightarrow> Inl e
                | Inr errorDetail \<Rightarrow>
                    Inl \<lparr>errName = ''Error'', errMessage = errorMessage status errorDetail\<rparr>)
          else (case b of
                  NotJson m \<Rightarrow> Inl \<lparr>errName = ''SyntaxError'', errMessage = m\<rparr>
                | JsonNull m \<Rightarrow> Inl \<lparr>errName = ''TypeError'', errMessage = m\<rparr>
                | Json data \<Rightarrow>
                    Inr (handleBackendResponse clk data
                          (case num_detections data of
                             Some n \<Rightarrow> if n > 0 then logMessage (ReceivedDetections n) Info s else s
                           | None \<Rightarrow> s))))"

text \<open>\<open>processFrameWithBackend\<close> from the moment the fetch settles.\<close>

definition settleRequest :: "(nat \<Rightarrow> readings) \<Rightarrow> fetchResult \<Rightarrow> detector \<Rightarrow> detector" where
  "settleRequest clk r s =
     catchFinally (case afterFetch clk r s of Inl e \<Rightarrow> Inl (e, s) | Inr s' \<Rightarrow> Inr s')"

subsection \<open>The WebSocket channel\<close>

definition startHeartbeat :: "detector \<Rightarrow> detector" where
  "startHeartbeat s =
     (case setInterval Heartbeat 30000 s of (h, s1) \<Rightarrow> s1\<lparr>heartbeatInterval := Some h\<rparr>)"

definition stopHeartbeat :: "detector \<Rightarrow> detector" where
  "stopHeartbeat s =
     (case heartbeatInterval s of
        Some h \<Rightarrow> (clearInterval h s)\<lparr>heartbeatInterval := None\<rparr>
      | None \<Rightarrow> s)"

text \<open>
  \<open>new WebSocket(wsUrl)\<close>: a new socket, connecting, with the four handlers attached.
  The URL is built from the page's own location, so the constructor does not throw and the
  \<open>catch\<close> branch is never taken.
\<close>

definition connectWebSocket :: "detector \<Rightarrow> detector" where
  "connectWebSocket s =
     s\<lparr>ws := Some (nextSocket s),
       sockets := sockets s @ [(nextSocket s, CONNECTING)],
       nextSocket := nextSocket s + 1\<rparr>"

definition onopen :: "detector \<Rightarrow> detector" where
  "onopen s = startHeartbeat (logMessage ConnectedToServer Info (s\<lparr>isConnected := True\<rparr>))"

definition onclose :: "detector \<Rightarrow> detector" where
  "onclose s =
     snd (setTimeout Reconnect 3000
            (stopHeartbeat (logMessage DisconnectedFromServer Info (s\<lparr>isConnected := False\<rparr>))))"

definition onerror :: "string option \<Rightarrow> detector \<Rightarrow> detector" where
  "onerror msg s = logMessage (WebSocketError (orElse msg ''Unknown error'')) Error s"

text \<open>The closure that \<open>onclose\<close> hands to \<open>setTimeout\<close>.\<close>

definition reconnect :: "detector \<Rightarrow> detector" where
  "reconnect s =
     (if \<not> isConnected s then connectWebSocket (logMessage AttemptingReconnect Info s) else s)"

text \<open>A parsed message, by its \<open>type\<close>; \<open>Unparseable\<close> makes \<open>JSON.parse\<close> throw.\<close>

datatype wsMessage =
    MsgConnected "string option"
  | MsgProcessing
  | MsgDetection "ws_card list option"
  | MsgError "string option"
  | MsgPong
  | MsgOther
  | Unparseable

definition handleMessage :: "(nat \<Rightarrow> readings) \<Rightarrow> wsMessage \<Rightarrow> detector \<Rightarrow> detector" where
  "handleMessage clk m s =
     (case m of
        MsgConnected t \<Rightarrow> logMessage (ServerMessage t) Info s
      | MsgProcessing \<Rightarrow> logMessage ProcessingFrame Info s
      | MsgDetection cards \<Rightarrow> handleDetection clk cards s
      | MsgError t \<Rightarrow> logMessage (ServerError t) Error s
      | MsgPong \<Rightarrow> s
      | MsgOther \<Rightarrow> s
      | Unparseable \<Rightarrow> s)"

text \<open>\<open>this.ws.close()\<close>: the socket starts closing; its close event comes later.\<close>

definition wsClose :: "nat \<Rightarrow> detector \<Rightarrow> detector" where
  "wsClose n s = s\<lparr>sockets := map (\<lambda>(k, st). if k = n then (k, CLOSING) else (k, st)) (sockets s)\<rparr>"

subsection \<open>Health check, construction, teardown\<close>

definition startBackendHealthCheck :: "detector \<Rightarrow> detector" where
  "startBackendHealthCheck s =
     (case setInterval HealthCheck 10000 s of (h, s1) \<Rightarrow> s1\<lparr>healthCheckInterval := Some h\<rparr>)"

definition stopBackendHealthCheck :: "detector \<Rightarrow> detector" where
  "stopBackendHealthCheck s =
     (case healthCheckInterval s of
        Some h \<Rightarrow> (clearInterval h s)\<lparr>healthCheckInterval := None\<rparr>
      | None \<Rightarrow> s)"

definition fresh :: detector where
  "fresh =
     \<lparr>stream = False, ws = None, isConnected = False, detectedCards = [], isProcessing = False,
      processingInterval = None, healthCheckInterval = None, heartbeatInterval = None,
      messageLog = [], overlay = \<lparr>font = ''10px sans-serif'', ops = []\<rparr>,
      timers = [], nextHandle = 1, sockets = [], nextSocket = 0, animationFrames = [],
      pendingBlobs = 0, inFlight = 0\<rparr>"

text \<open>The constructor: connect, start the health check, schedule the connectivity test.\<close>

definition constructor :: detector where
  "constructor = snd (setTimeout ConnectivityTest 1000 (startBackendHealthCheck (connectWebSocket fresh)))"

definition cleanup :: "detector \<Rightarrow> detector" where
  "cleanup s =
     (let s1 = stopPeriodicProcessing s;
          s2 = stopBackendHealthCheck s1;
          s3 = stopHeartbeat s2;
          s4 = (case ws s3 of Some n \<Rightarrow> wsClose n s3 | None \<Rightarrow> s3)
      in if stream s4 then stopCamera s4 else s4)"

subsection \<open>Steps\<close>

text \<open>
  What a timer's closure does when it runs. The health check only updates the status
  indicator of the page, and the heartbeat only sends a \<open>ping\<close> on the open socket:
  neither changes the state modelled here.
\<close>

definition runCallback :: "callback \<Rightarrow> detector \<Rightarrow> detector" where
  "runCallback cb s =
     (case cb of
        CaptureTick \<Rightarrow>
          if stream s \<and> \<not> isProcessing s then snd (setTimeout CaptureDelay 25 s) else s
      | CaptureDelay \<Rightarrow>
          if stream s \<and> \<not> isProcessing s then captureFrame s else s
      | HealthCheck \<Rightarrow> s
      | Heartbeat \<Rightarrow> s
      | Reconnect \<Rightarrow> reconnect s
      | ConnectivityTest \<Rightarrow> logMessage TestingConnectivity Info s)"

text \<open>A timer fires: a timeout leaves the table, an interval stays.\<close>

definition fire :: "nat \<Rightarrow> detector \<Rightarrow> detector" where
  "fire h s =
     (case map_of (timers s) h of
        None \<Rightarrow> s
      | Some t \<Rightarrow> runCallback (callback t) (if repeats t then s else clearInterval h s))"

text \<open>The animation frame runs the queued overlay closures in order.\<close>

definition animationFrame :: "(string \<Rightarrow> string \<Rightarrow> real) \<Rightarrow> detector \<Rightarrow> detector" where
  "animationFrame measureText s =
     s\<lparr>overlay := foldl (\<lambda>ctx ds. renderPass measureText ds ctx) (overlay s) (animationFrames s),
       animationFrames := []\<rparr>"

text \<open>
  Everything that can happen to the controller. An event that cannot occur in the state
  (a timer that is not in the table, a socket that is closed, a fetch that was not issued)
  leaves the state as it is. \<open>BlobReady\<close> and \<open>BlobFailed\<close> are the callback of
  \<open>toBlob\<close> with an image and with \<open>null\<close>. \<open>ToggleCamera\<close> without a stream calls
  \<open>getUserMedia\<close>, whose outcome is the event \<open>CameraGranted\<close> or
  \<open>CameraDenied\<close>. Handlers that touch only the page and the log (the threshold
  sliders, the window resize) are left out.
\<close>

datatype event =
    Fire nat
  | AnimationFrame "string \<Rightarrow> string \<Rightarrow> real"
  | BlobReady
  | BlobFailed string
  | FetchSettled fetchResult "nat \<Rightarrow> readings"
  | SocketOpen nat
  | SocketClose nat
  | SocketError nat "string option"
  | SocketMessage nat wsMessage "nat \<Rightarrow> readings"
  | VisibilityChange bool
  | ToggleCamera
  | CameraGranted
  | CameraDenied string
  | CanPlay nat
  | SpeedInput nat
  | RemoveAllClick
  | KeepClick string
  | RemoveClick string
  | BeforeUnload

definition step :: "detector \<Rightarrow> event \<Rightarrow> detector" where
  "step s e =
     (case e of
        Fire h \<Rightarrow> fire h s
      | AnimationFrame measureText \<Rightarrow> animationFrame measureText s
      | BlobReady \<Rightarrow>
          if pendingBlobs s = 0 then s
          else processFrameWithBackend Blob (s\<lparr>pendingBlobs := pendingBlobs s - 1\<rparr>)
      | BlobFailed m \<Rightarrow>
          if pendingBlobs s = 0 then s
          else processFrameWithBackend (NullBlob m) (s\<lparr>pendingBlobs := pendingBlobs s - 1\<rparr>)
      | FetchSettled r clk \<Rightarrow>
          if inFlight s = 0 then s
          else settleRequest clk r (s\<lparr>inFlight := inFlight s - 1\<rparr>)
      | SocketOpen n \<Rightarrow>
          if map_of (sockets s) n = Some CONNECTING
          then onopen (s\<lparr>sockets := AList.update n OPEN (sockets s)\<rparr>)
          else s
      | SocketClose n \<Rightarrow>
          if map_of (sockets s) n \<noteq> None
          then onclose (s\<lparr>sockets := AList.delete n (sockets s)\<rparr>)
          else s
      | SocketError n msg \<Rightarrow>
          if map_of (sockets s) n \<noteq> None then onerror msg s else s
      | SocketMessage n m clk \<Rightarrow>
          if map_of (sockets s) n = Some OPEN \<or> map_of (sockets s) n = Some CLOSING
          then handleMessage clk m s
          else s
      | VisibilityChange hidden \<Rightarrow>
          if \<not> hidden \<and> \<not> isConnected s then connectWebSocket s else s
      | ToggleCamera \<Rightarrow> if stream s then stopCamera s else s
      | CameraGranted \<Rightarrow> s\<lparr>stream := True\<rparr>
      | CameraDenied m \<Rightarrow> logMessage (CameraError m) Error s
      | CanPlay fps \<Rightarrow> if stream s then oncanplay fps s else s
      | SpeedInput fps \<Rightarrow> updateProcessingSpeed fps s
      | RemoveAllClick \<Rightarrow> removeAllCards s
      | KeepClick key \<Rightarrow> toggleKeepCard key s
      | RemoveClick key \<Rightarrow> removeCard key s
      | BeforeUnload \<Rightarrow> cleanup s)"

definition run :: "event list \<Rightarrow> detector" where
  "run evs = foldl step constructor evs"

subsection \<open>Notions the properties are stated with\<close>

text \<open>The case-insensitive names of the stored cards, in the order of the Map.\<close>

definition lowerNames :: "(string \<times> entity) list \<Rightarrow> string list" where
  "lowerNames m = map (\<lambda>e. toLowerCase (name e)) (mapValues m)"

text \<open>A stored card is live at \<open>now\<close>: the test \<open>isRecentlyDetected\<close> makes, with its default window.\<close>

definition withinCooldown :: "int \<Rightarrow> entity \<Rightarrow> bool" where
  "withinCooldown now e = (now - timestamp e < 2 * 60 * 1000)"

text \<open>A field is present and not blank once trimmed.\<close>

definition nonBlank :: "string option \<Rightarrow> bool" where
  "nonBlank v = (case v of None \<Rightarrow> False | Some s \<Rightarrow> trim s \<noteq> [])"

text \<open>
  The display name as the specification words it (name, then card identifier, then set
  identifier, then the literal), with each field trimmed.
\<close>

definition displayName :: "match \<Rightarrow> string" where
  "displayName m =
     (if nonBlank (match_name m) then trim (the (match_name m))
      else if nonBlank (match_card_id m) then trim (the (match_card_id m))
      else if nonBlank (match_set_id m) then trim (the (match_set_id m))
      else ''Unknown Card'')"

text \<open>The reconnect timeouts that are pending.\<close>

definition pendingReconnects :: "detector \<Rightarrow> nat" where
  "pendingReconnects s = length (filter (\<lambda>t. callback (snd t) = Reconnect) (timers s))"

text \<open>
  Timer handles are handed out in increasing order, and the stored heartbeat handle names
  no timer other than a heartbeat.
\<close>

definition handlesOk :: "detector \<Rightarrow> bool" where
  "handlesOk s =
     (list_all (\<lambda>p. fst p < nextHandle s) (timers s)
      \<and> (case heartbeatInterval s of
            None \<Rightarrow> True
          | Some h \<Rightarrow> h < nextHandle s
                      \<and> list_all (\<lambda>p. fst p = h \<longrightarrow> callback (snd p) = Heartbeat) (timers s)))"

subsection \<open>Sample inputs\<close>

definition pikachu :: match where
  "pikachu = \<lparr>match_name = Some ''Pikachu'', match_card_id = None, match_set_id = None,
              match_distance = Some 3.2\<rparr>"

definition pikachuPadded :: match where
  "pikachuPadded = \<lparr>match_name = Some '' Pikachu '', match_card_id = None, match_set_id = None,
                    match_distance = Some 3.2\<rparr>"

definition setOnly :: match where
  "setOnly = \<lparr>match_name = None, match_card_id = None, match_set_id = Some ''base1'',
              match_distance = Some 7\<rparr>"

definition square :: "point list" where
  "square = [(10, 10), (50, 10), (50, 70), (10, 70)]"

definition detectionOf :: "match \<Rightarrow> detection" where
  "detectionOf m = \<lparr>det_polygon = Some square, det_crop_size = None, det_matches = Some [m]\<rparr>"

definition noMatches :: detection where
  "noMatches = \<lparr>det_polygon = Some square, det_crop_size = None, det_matches = Some []\<rparr>"

definition readingsAt :: "int \<Rightarrow> readings" where
  "readingsAt t = \<lparr>idNow = t, checkNow = t, stampNow = t, rnd = ''k3x9q2m1z''\<rparr>"

definition always :: "int \<Rightarrow> nat \<Rightarrow> readings" where
  "always t i = readingsAt t"

definition fixedWidth :: "string \<Rightarrow> string \<Rightarrow> real" where
  "fixedWidth f t = 40"

section \<open>Properties\<close>

subsection \<open>Log and frame lemmas\<close>

lemma keepLast50_drop: "keepLast50 xs = drop (length xs - 50) xs"
proof (induction xs rule: keepLast50.induct)
  case (1 xs)
  show ?case
  proof (cases "length xs > 50")
    case True
    then have "keepLast50 xs = keepLast50 (tl xs)"
      by (subst keepLast50.simps) simp
    also have "\<dots> = drop (length (tl xs) - 50) (tl xs)"
      using "1" True by simp
    also have "\<dots> = drop (length xs - 50) xs"
    proof (cases xs)
      case Nil
      then show ?thesis by simp
    next
      case (Cons a list)
      have "length list - 49 = Suc (length list - 50)"
        using True Cons by simp
      then show ?thesis using Cons by simp
    qed
    finally show ?thesis .
  next
    case False
    then show ?thesis by (subst keepLast50.simps) simp
  qed
qed

lemma last_keepLast50: "last (keepLast50 (xs @ [x])) = x"
  by (simp add: keepLast50_drop)

lemma last_logMessage: "last (messageLog (logMessage m l s)) = (m, l)"
  by (simp add: logMessage_def last_keepLast50)

lemma logMessage_frame [simp]:
  "stream (logMessage m l s) = stream s"
  "detectedCards (logMessage m l s) = detectedCards s"
  "isProcessing (logMessage m l s) = isProcessing s"
  "timers (logMessage m l s) = timers s"
  "pendingBlobs (logMessage m l s) = pendingBlobs s"
  "inFlight (logMessage m l s) = inFlight s"
  "nextHandle (logMessage m l s) = nextHandle s"
  "heartbeatInterval (logMessage m l s) = heartbeatInterval s"
  by (simp_all add: logMessage_def)

lemma clearOverlay_frame [simp]:
  "stream (clearOverlay s) = stream s"
  "detectedCards (clearOverlay s) = detectedCards s"
  "isProcessing (clearOverlay s) = isProcessing s"
  "timers (clearOverlay s) = timers s"
  "pendingBlobs (clearOverlay s) = pendingBlobs s"
  "inFlight (clearOverlay s) = inFlight s"
  "nextHandle (clearOverlay s) = nextHandle s"
  "heartbeatInterval (clearOverlay s) = heartbeatInterval s"
  by (simp_all add: clearOverlay_def)

lemma drawDetectionOverlay_frame [simp]:
  "stream (drawDetectionOverlay ds s) = stream s"
  "detectedCards (drawDetectionOverlay ds s) = detectedCards s"
  "isProcessing (drawDetectionOverlay ds s) = isProcessing s"
  "timers (drawDetectionOverlay ds s) = timers s"
  "pendingBlobs (drawDetectionOverlay ds s) = pendingBlobs s"
  "inFlight (drawDetectionOverlay ds s) = inFlight s"
  "nextHandle (drawDetectionOverlay ds s) = nextHandle s"
  "heartbeatInterval (drawDetectionOverlay ds s) = heartbeatInterval s"
  by (simp_all add: drawDetectionOverlay_def)

lemma clearInterval_frame [simp]:
  "stream (clearInterval h s) = stream s"
  "detectedCards (clearInterval h s) = detectedCards s"
  "isProcessing (clearInterval h s) = isProcessing s"
  "pendingBlobs (clearInterval h s) = pendingBlobs s"
  "inFlight (clearInterval h s) = inFlight s"
  "nextHandle (clearInterval h s) = nextHandle s"
  "heartbeatInterval (clearInterval h s) = heartbeatInterval s"
  by (simp_all add: clearInterval_def)

lemma setInterval_frame [simp]:
  "stream (snd (setInterval cb d s)) = stream s"
  "detectedCards (snd (setInterval cb d s)) = detectedCards s"
  "isProcessing (snd (setInterval cb d s)) = isProcessing s"
  "pendingBlobs (snd (setInterval cb d s)) = pendingBlobs s"
  "inFlight (snd (setInterval cb d s)) = inFlight s"
  "heartbeatInterval (snd (setInterval cb d s)) = heartbeatInterval s"
  by (simp_all add: setInterval_def)

lemma setTimeout_frame [simp]:
  "stream (snd (setTimeout cb d s)) = stream s"
  "detectedCards (snd (setTimeout cb d s)) = detectedCards s"
  "isProcessing (snd (setTimeout cb d s)) = isProcessing s"
  "pendingBlobs (snd (setTimeout cb d s)) = pendingBlobs s"
  "inFlight (snd (setTimeout cb d s)) = inFlight s"
  "heartbeatInterval (snd (setTimeout cb d s)) = heartbeatInterval s"
  by (simp_all add: setTimeout_def)

lemma processDetection_frame [simp]:
  "stream (processDetection r i d s) = stream s"
  "isProcessing (processDetection r i d s) = isProcessing s"
  "timers (processDetection r i d s) = timers s"
  "pendingBlobs (processDetection r i d s) = pendingBlobs s"
  "inFlight (processDetection r i d s) = inFlight s"
  "nextHandle (processDetection r i d s) = nextHandle s"
  "heartbeatInterval (processDetection r i d s) = heartbeatInterval s"
  by (simp_all add: processDetection_def Let_def split: option.splits list.splits)

lemma processEach_frame [simp]:
  "stream (processEach clk i ds s) = stream s"
  "isProcessing (processEach clk i ds s) = isProcessing s"
  "timers (processEach clk i ds s) = timers s"
  "pendingBlobs (processEach clk i ds s) = pendingBlobs s"
  "inFlight (processEach clk i ds s) = inFlight s"
  "nextHandle (processEach clk i ds s) = nextHandle s"
  "heartbeatInterval (processEach clk i ds s) = heartbeatInterval s"
  by (induction ds arbitrary: i s; simp)+

lemma handleBackendResponse_frame [simp]:
  "stream (handleBackendResponse clk data s) = stream s"
  "isProcessing (handleBackendResponse clk data s) = isProcessing s"
  "timers (handleBackendResponse clk data s) = timers s"
  "pendingBlobs (handleBackendResponse clk data s) = pendingBlobs s"
  "inFlight (handleBackendResponse clk data s) = inFlight s"
  "nextHandle (handleBackendResponse clk data s) = nextHandle s"
  "heartbeatInterval (handleBackendResponse clk data s) = heartbeatInterval s"
  by (simp_all add: handleBackendResponse_def split: option.splits list.splits)

lemma addCard_frame [simp]:
  "stream (addCard r c s) = stream s"
  "isProcessing (addCard r c s) = isProcessing s"
  "timers (addCard r c s) = timers s"
  "pendingBlobs (addCard r c s) = pendingBlobs s"
  "inFlight (addCard r c s) = inFlight s"
  "nextHandle (addCard r c s) = nextHandle s"
  "heartbeatInterval (addCard r c s) = heartbeatInterval s"
  by (simp_all add: addCard_def Let_def)

lemma addEach_frame [simp]:
  "stream (addEach clk i cs s) = stream s"
  "isProcessing (addEach clk i cs s) = isProcessing s"
  "timers (addEach clk i cs s) = timers s"
  "pendingBlobs (addEach clk i cs s) = pendingBlobs s"
  "inFlight (addEach clk i cs s) = inFlight s"
  "nextHandle (addEach clk i cs s) = nextHandle s"
  "heartbeatInterval (addEach clk i cs s) = heartbeatInterval s"
  by (induction cs arbitrary: i s; simp)+

lemma handleDetection_frame [simp]:
  "stream (handleDetection clk cards s) = stream s"
  "isProcessing (handleDetection clk cards s) = isProcessing s"
  "timers (handleDetection clk cards s) = timers s"
  "pendingBlobs (handleDetection clk cards s) = pendingBlobs s"
  "inFlight (handleDetection clk cards s) = inFlight s"
  "nextHandle (handleDetection clk cards s) = nextHandle s"
  "heartbeatInterval (handleDetection clk cards s) = heartbeatInterval s"
  by (simp_all add: handleDetection_def split: option.splits list.splits)

lemma removeAllCards_frame [simp]:
  "stream (removeAllCards s) = stream s"
  "isProcessing (removeAllCards s) = isProcessing s"
  "timers (removeAllCards s) = timers s"
  "pendingBlobs (removeAllCards s) = pendingBlobs s"
  "inFlight (removeAllCards s) = inFlight s"
  "nextHandle (removeAllCards s) = nextHandle s"
  "heartbeatInterval (removeAllCards s) = heartbeatInterval s"
  by (simp_all add: removeAllCards_def Let_def)

lemma toggleKeepCard_frame [simp]:
  "stream (toggleKeepCard k s) = stream s"
  "isProcessing (toggleKeepCard k s) = isProcessing s"
  "timers (toggleKeepCard k s) = timers s"
  "pendingBlobs (toggleKeepCard k s) = pendingBlobs s"
  "inFlight (toggleKeepCard k s) = inFlight s"
  "nextHandle (toggleKeepCard k s) = nextHandle s"
  "heartbeatInterval (toggleKeepCard k s) = heartbeatInterval s"
  by (simp_all add: toggleKeepCard_def split: option.splits)

lemma removeCard_frame [simp]:
  "stream (removeCard k s) = stream s"
  "isProcessing (removeCard k s) = isProcessing s"
  "timers (removeCard k s) = timers s"
  "pendingBlobs (removeCard k s) = pendingBlobs s"
  "inFlight (removeCard k s) = inFlight s"
  "nextHandle (removeCard k s) = nextHandle s"
  "heartbeatInterval (removeCard k s) = heartbeatInterval s"
  by (simp_all add: removeCard_def split: option.splits)

lemma stopPeriodicProcessing_frame [simp]:
  "stream (stopPeriodicProcessing s) = stream s"
  "detectedCards (stopPeriodicProcessing s) = detectedCards s"
  "isProcessing (stopPeriodicProcessing s) = isProcessing s"
  "pendingBlobs (stopPeriodicProcessing s) = pendingBlobs s"
  "inFlight (stopPeriodicProcessing s) = inFlight s"
  "nextHandle (stopPeriodicProcessing s) = nextHandle s"
  "heartbeatInterval (stopPeriodicProcessing s) = heartbeatInterval s"
  by (simp_all add: stopPeriodicProcessing_def split: option.splits)

lemma startPeriodicProcessing_frame [simp]:
  "stream (startPeriodicProcessing fps s) = stream s"
  "detectedCards (startPeriodicProcessing fps s) = detectedCards s"
  "isProcessing (startPeriodicProcessing fps s) = isProcessing s"
  "pendingBlobs (startPeriodicProcessing fps s) = pendingBlobs s"
  "inFlight (startPeriodicProcessing fps s) = inFlight s"
  "heartbeatInterval (startPeriodicProcessing fps s) = heartbeatInterval s"
  by (simp_all add: startPeriodicProcessing_def setInterval_def Let_def split: option.splits)

lemma oncanplay_frame [simp]:
  "stream (oncanplay fps s) = stream s"
  "detectedCards (oncanplay fps s) = detectedCards s"
  "isProcessing (oncanplay fps s) = isProcessing s"
  "pendingBlobs (oncanplay fps s) = pendingBlobs s"
  "inFlight (oncanplay fps s) = inFlight s"
  "heartbeatInterval (oncanplay fps s) = heartbeatInterval s"
  by (simp_all add: oncanplay_def)

lemma updateProcessingSpeed_frame [simp]:
  "stream (updateProcessingSpeed fps s) = stream s"
  "detectedCards (updateProcessingSpeed fps s) = detectedCards s"
  "isProcessing (updateProcessingSpeed fps s) = isProcessing s"
  "pendingBlobs (updateProcessingSpeed fps s) = pendingBlobs s"
  "inFlight (updateProcessingSpeed fps s) = inFlight s"
  "heartbeatInterval (updateProcessingSpeed fps s) = heartbeatInterval s"
  by (simp_all add: updateProcessingSpeed_def)

lemma stopCamera_frame [simp]:
  "detectedCards (stopCamera s) = detectedCards s"
  "isProcessing (stopCamera s) = isProcessing s"
  "pendingBlobs (stopCamera s) = pendingBlobs s"
  "inFlight (stopCamera s) = inFlight s"
  "nextHandle (stopCamera s) = nextHandle s"
  "heartbeatInterval (stopCamera s) = heartbeatInterval s"
  by (simp_all add: stopCamera_def)

lemma captureFrame_frame [simp]:
  "stream (captureFrame s) = stream s"
  "detectedCards (captureFrame s) = detectedCards s"
  "isProcessing (captureFrame s) = isProcessing s"
  "timers (captureFrame s) = timers s"
  "inFlight (captureFrame s) = inFlight s"
  "nextHandle (captureFrame s) = nextHandle s"
  "heartbeatInterval (captureFrame s) = heartbeatInterval s"
  by (simp_all add: captureFrame_def)

lemma catchFinally_frame [simp]:
  "stream (catchFinally (Inl (e, s))) = stream s"
  "detectedCards (catchFinally (Inl (e, s))) = detectedCards s"
  "timers (catchFinally (Inl (e, s))) = timers s"
  "pendingBlobs (catchFinally (Inl (e, s))) = pendingBlobs s"
  "inFlight (catchFinally (Inl (e, s))) = inFlight s"
  "nextHandle (catchFinally (Inl (e, s))) = nextHandle s"
  "heartbeatInterval (catchFinally (Inl (e, s))) = heartbeatInterval s"
  by (simp_all add: catchFinally_def)

lemma processFrameWithBackend_frame [simp]:
  "stream (processFrameWithBackend b s) = stream s"
  "detectedCards (processFrameWithBackend b s) = detectedCards s"
  "timers (processFrameWithBackend b s) = timers s"
  "pendingBlobs (processFrameWithBackend b s) = pendingBlobs s"
  "nextHandle (processFrameWithBackend b s) = nextHandle s"
  "heartbeatInterval (processFrameWithBackend b s) = heartbeatInterval s"
  by (simp_all add: processFrameWithBackend_def split: blob.splits)

lemma settleRequest_frame [simp]:
  "stream (settleRequest clk r s) = stream s"
  "timers (settleRequest clk r s) = timers s"
  "pendingBlobs (settleRequest clk r s) = pendingBlobs s"
  "inFlight (settleRequest clk r s) = inFlight s"
  "nextHandle (settleRequest clk r s) = nextHandle s"
  "heartbeatInterval (settleRequest clk r s) = heartbeatInterval s"
  by (simp_all add: settleRequest_def afterFetch_def catchFinally_def readDetail_def Let_def split: fetchResult.splits body.splits option.splits)

lemma startHeartbeat_frame [simp]:
  "stream (startHeartbeat s) = stream s"
  "detectedCards (startHeartbeat s) = detectedCards s"
  "isProcessing (startHeartbeat s) = isProcessing s"
  "pendingBlobs (startHeartbeat s) = pendingBlobs s"
  "inFlight (startHeartbeat s) = inFlight s"
  by (simp_all add: startHeartbeat_def setInterval_def)

lemma stopHeartbeat_frame [simp]:
  "stream (stopHeartbeat s) = stream s"
  "detectedCards (stopHeartbeat s) = detectedCards s"
  "isProcessing (stopHeartbeat s) = isProcessing s"
  "pendingBlobs (stopHeartbeat s) = pendingBlobs s"
  "inFlight (stopHeartbeat s) = inFlight s"
  "nextHandle (stopHeartbeat s) = nextHandle s"
  by (simp_all add: stopHeartbeat_def split: option.splits)

lemma connectWebSocket_frame [simp]:
  "stream (connectWebSocket s) = stream s"
  "detectedCards (connectWebSocket s) = detectedCards s"
  "isProcessing (connectWebSocket s) = isProcessing s"
  "timers (connectWebSocket s) = timers s"
  "pendingBlobs (connectWebSocket s) = pendingBlobs s"
  "inFlight (connectWebSocket s) = inFlight s"
  "nextHandle (connectWebSocket s) = nextHandle s"
  "heartbeatInterval (connectWebSocket s) = heartbeatInterval s"
  by (simp_all add: connectWebSocket_def)

lemma onopen_frame [simp]:
  "stream (onopen s) = stream s"
  "detectedCards (onopen s) = detectedCards s"
  "isProcessing (onopen s) = isProcessing s"
  "pendingBlobs (onopen s) = pendingBlobs s"
  "inFlight (onopen s) = inFlight s"
  by (simp_all add: onopen_def)

lemma onclose_frame [simp]:
  "stream (onclose s) = stream s"
  "detectedCards (onclose s) = detectedCards s"
  "isProcessing (onclose s) = isProcessing s"
  "pendingBlobs (onclose s) = pendingBlobs s"
  "inFlight (onclose s) = inFlight s"
  by (simp_all add: onclose_def)

lemma onerror_frame [simp]:
  "stream (onerror msg s) = stream s"
  "detectedCards (onerror msg s) = detectedCards s"
  "isProcessing (onerror msg s) = isProcessing s"
  "timers (onerror msg s) = timers s"
  "pendingBlobs (onerror msg s) = pendingBlobs s"
  "inFlight (onerror msg s) = inFlight s"
  "nextHandle (onerror msg s) = nextHandle s"
  "heartbeatInterval (onerror msg s) = heartbeatInterval s"
  by (simp_all add: onerror_def)

lemma reconnect_frame [simp]:
  "stream (reconnect s) = stream s"
  "detectedCards (reconnect s) = detectedCards s"
  "isProcessing (reconnect s) = isProcessing s"
  "timers (reconnect s) = timers s"
  "pendingBlobs (reconnect s) = pendingBlobs s"
  "inFlight (reconnect s) = inFlight s"
  "nextHandle (reconnect s) = nextHandle s"
  "heartbeatInterval (reconnect s) = heartbeatInterval s"
  by (simp_all add: reconnect_def)

lemma handleMessage_frame [simp]:
  "stream (handleMessage clk m s) = stream s"
  "isProcessing (handleMessage clk m s) = isProcessing s"
  "timers (handleMessage clk m s) = timers s"
  "pendingBlobs (handleMessage clk m s) = pendingBlobs s"
  "inFlight (handleMessage clk m s) = inFlight s"
  "nextHandle (handleMessage clk m s) = nextHandle s"
  "heartbeatInterval (handleMessage clk m s) = heartbeatInterval s"
  by (simp_all add: handleMessage_def split: wsMessage.splits)

lemma wsClose_frame [simp]:
  "stream (wsClose n s) = stream s"
  "detectedCards (wsClose n s) = detectedCards s"
  "isProcessing (wsClose n s) = isProcessing s"
  "timers (wsClose n s) = timers s"
  "pendingBlobs (wsClose n s) = pendingBlobs s"
  "inFlight (wsClose n s) = inFlight s"
  "nextHandle (wsClose n s) = nextHandle s"
  "heartbeatInterval (wsClose n s) = heartbeatInterval s"
  by (simp_all add: wsClose_def)

lemma startBackendHealthCheck_frame [simp]:
  "stream (startBackendHealthCheck s) = stream s"
  "detectedCards (startBackendHealthCheck s) = detectedCards s"
  "isProcessing (startBackendHealthCheck s) = isProcessing s"
  "pendingBlobs (startBackendHealthCheck s) = pendingBlobs s"
  "inFlight (startBackendHealthCheck s) = inFlight s"
  "heartbeatInterval (startBackendHealthCheck s) = heartbeatInterval s"
  by (simp_all add: startBackendHealthCheck_def setInterval_def)

lemma stopBackendHealthCheck_frame [simp]:
  "stream (stopBackendHealthCheck s) = stream s"
  "detectedCards (stopBackendHealthCheck s) = detectedCards s"
  "isProcessing (stopBackendHealthCheck s) = isProcessing s"
  "pendingBlobs (stopBackendHealthCheck s) = pendingBlobs s"
  "inFlight (stopBackendHealthCheck s) = inFlight s"
  "nextHandle (stopBackendHealthCheck s) = nextHandle s"
  "heartbeatInterval (stopBackendHealthCheck s) = heartbeatInterval s"
  by (simp_all add: stopBackendHealthCheck_def split: option.splits)

lemma cleanup_frame [simp]:
  "detectedCards (cleanup s) = detectedCards s"
  "isProcessing (cleanup s) = isProcessing s"
  "pendingBlobs (cleanup s) = pendingBlobs s"
  "inFlight (cleanup s) = inFlight s"
  "nextHandle (cleanup s) = nextHandle s"
  by (simp_all add: cleanup_def Let_def split: option.splits)

lemma runCallback_frame [simp]:
  "stream (runCallback cb s) = stream s"
  "detectedCards (runCallback cb s) = detectedCards s"
  "isProcessing (runCallback cb s) = isProcessing s"
  "inFlight (runCallback cb s) = inFlight s"
  "heartbeatInterval (runCallback cb s) = heartbeatInterval s"
  by (simp_all add: runCallback_def split: callback.splits)

lemma fire_frame [simp]:
  "stream (fire h s) = stream s"
  "detectedCards (fire h s) = detectedCards s"
  "isProcessing (fire h s) = isProcessing s"
  "inFlight (fire h s) = inFlight s"
  "heartbeatInterval (fire h s) = heartbeatInterval s"
  by (simp_all add: fire_def split: option.splits)

lemma animationFrame_frame [simp]:
  "stream (animationFrame mt s) = stream s"
  "detectedCards (animationFrame mt s) = detectedCards s"
  "isProcessing (animationFrame mt s) = isProcessing s"
  "timers (animationFrame mt s) = timers s"
  "pendingBlobs (animationFrame mt s) = pendingBlobs s"
  "inFlight (animationFrame mt s) = inFlight s"
  "nextHandle (animationFrame mt s) = nextHandle s"
  "heartbeatInterval (animationFrame mt s) = heartbeatInterval s"
  by (simp_all add: animationFrame_def)

subsection \<open>The names in the cache stay distinct\<close>

lemma set_lowerNames_update:
  "set (lowerNames (AList.update k v al)) \<subseteq> insert (toLowerCase (name v)) (set (lowerNames al))"
  by (induction al) (auto simp: lowerNames_def mapValues_def)

lemma lowerNames_update_new:
  "toLowerCase (name v) \<notin> set (lowerNames al) \<Longrightarrow> distinct (lowerNames al)
     \<Longrightarrow> distinct (lowerNames (AList.update k v al))"
proof (induction al)
  case Nil
  then show ?case by (simp add: lowerNames_def mapValues_def)
next
  case (Cons p al)
  obtain k' e where p: "p = (k', e)" by (cases p)
  have tail: "distinct (lowerNames (AList.update k v al))"
    using Cons by (simp add: lowerNames_def mapValues_def)
  show ?case
  proof (cases "k' = k")
    case True
    then show ?thesis using Cons.prems p by (simp add: lowerNames_def mapValues_def)
  next
    case False
    have "toLowerCase (name e) \<notin> set (lowerNames (AList.update k v al))"
      using set_lowerNames_update [of k v al] Cons.prems p
      by (auto simp: lowerNames_def mapValues_def)
    then show ?thesis using False p tail by (simp add: lowerNames_def mapValues_def)
  qed
qed

lemma lowerNames_update_kept:
  "map_of al k = Some c \<Longrightarrow> lowerNames (AList.update k (c\<lparr>kept := b\<rparr>) al) = lowerNames al"
  by (induction al) (auto simp: lowerNames_def mapValues_def)

lemma lowerNames_delete:
  "distinct (lowerNames al) \<Longrightarrow> distinct (lowerNames (AList.delete k al))"
  by (induction al) (auto simp: lowerNames_def mapValues_def image_iff AList.delete_eq)

lemma find_name_None:
  "(find (\<lambda>e. toLowerCase (name e) = n) (mapValues al) = None) = (n \<notin> set (lowerNames al))"
  by (auto simp: find_None_iff lowerNames_def mapValues_def)

lemma processDetection_distinct:
  "distinct (lowerNames (detectedCards s))
     \<Longrightarrow> distinct (lowerNames (detectedCards (processDetection r i d s)))"
  by (auto simp: processDetection_def Let_def find_name_None lowerNames_update_new
        split: option.splits list.splits)

lemma processEach_distinct:
  "distinct (lowerNames (detectedCards s))
     \<Longrightarrow> distinct (lowerNames (detectedCards (processEach clk i ds s)))"
  by (induction ds arbitrary: i s) (simp_all add: processDetection_distinct)

lemma handleBackendResponse_distinct:
  "distinct (lowerNames (detectedCards s))
     \<Longrightarrow> distinct (lowerNames (detectedCards (handleBackendResponse clk data s)))"
  by (simp add: handleBackendResponse_def processEach_distinct processDetection_distinct
        split: option.splits list.splits)

lemma addCard_distinct:
  "distinct (lowerNames (detectedCards s))
     \<Longrightarrow> distinct (lowerNames (detectedCards (addCard r c s)))"
  by (auto simp: addCard_def Let_def find_name_None lowerNames_update_new)

lemma addEach_distinct:
  "distinct (lowerNames (detectedCards s))
     \<Longrightarrow> distinct (lowerNames (detectedCards (addEach clk i cs s)))"
  by (induction cs arbitrary: i s) (simp_all add: addCard_distinct)

lemma handleDetection_distinct:
  "distinct (lowerNames (detectedCards s))
     \<Longrightarrow> distinct (lowerNames (detectedCards (handleDetection clk cards s)))"
  by (simp add: handleDetection_def addEach_distinct addCard_distinct
        split: option.splits list.splits)

lemma settleRequest_distinct:
  "distinct (lowerNames (detectedCards s))
     \<Longrightarrow> distinct (lowerNames (detectedCards (settleRequest clk r s)))"
  by (simp add: settleRequest_def afterFetch_def catchFinally_def readDetail_def Let_def
        handleBackendResponse_distinct split: fetchResult.splits body.splits option.splits)

lemma step_distinct:
  assumes "distinct (lowerNames (detectedCards s))"
  shows "distinct (lowerNames (detectedCards (step s e)))"
proof (cases e)
  case (FetchSettled r clk)
  then show ?thesis
    using assms settleRequest_distinct [of "s\<lparr>inFlight := inFlight s - 1\<rparr>" clk r]
    by (simp add: step_def)
next
  case (SocketMessage n m clk)
  then show ?thesis
    using assms by (cases m) (simp_all add: step_def handleMessage_def handleDetection_distinct)
next
  case RemoveAllClick
  then show ?thesis
    using assms by (simp add: step_def removeAllCards_def Let_def lowerNames_def mapValues_def)
next
  case (KeepClick key)
  then show ?thesis
    using assms by (simp add: step_def toggleKeepCard_def lowerNames_update_kept split: option.splits)
next
  case (RemoveClick key)
  then show ?thesis
    using assms by (simp add: step_def removeCard_def lowerNames_delete split: option.splits)
qed (use assms in \<open>simp_all add: step_def\<close>)

lemma foldl_step_distinct:
  "distinct (lowerNames (detectedCards s))
     \<Longrightarrow> distinct (lowerNames (detectedCards (foldl step s evs)))"
  by (induction evs arbitrary: s) (simp_all add: step_distinct)

lemma detectedCards_constructor: "detectedCards constructor = []"
  by (simp add: constructor_def fresh_def)

lemma run_distinct: "distinct (lowerNames (detectedCards (run evs)))"
  unfolding run_def
  by (rule foldl_step_distinct) (simp add: detectedCards_constructor lowerNames_def mapValues_def)


lemma lowerNames_update_mem:
  "toLowerCase (name v) \<in> set (lowerNames (AList.update k v al))"
  by (induction al) (auto simp: lowerNames_def mapValues_def)

lemma mapValues_update_subset:
  "set (mapValues (AList.update k v al)) \<subseteq> insert v (set (mapValues al))"
  by (induction al) (auto simp: mapValues_def)

lemma lowerNames_mem:
  "e \<in> set (mapValues al) \<Longrightarrow> toLowerCase (name e) \<in> set (lowerNames al)"
  by (simp add: lowerNames_def)

lemma not_recent_if_absent:
  assumes "toLowerCase cardName \<notin> set (lowerNames (detectedCards s))"
  shows "\<not> isRecentlyDetected now cardName k s"
proof -
  have "\<forall>e \<in> set (mapValues (detectedCards s)). toLowerCase (name e) \<noteq> toLowerCase cardName"
    using assms lowerNames_mem [of _ "detectedCards s"] by metis
  then show ?thesis
    by (simp add: isRecentlyDetected_def Let_def list_ex_iff)
qed

lemma trim_Nil: "trim [] = []"
  by (simp add: trim_def)

lemma resolveCardName_displayName: "resolveCardName m = displayName m"
  by (cases "match_name m"; cases "match_card_id m"; cases "match_set_id m")
     (auto simp: resolveCardName_def displayName_def nonBlank_def truthy_def trim_Nil)

lemma processDetection_rejects:
  assumes "det_matches d = Some (m # ms)"
    and "toLowerCase (resolveCardName m) \<in> set (lowerNames (detectedCards s))"
  shows "processDetection r i d s = s"
  using assms by (simp add: processDetection_def Let_def find_name_None)

lemma processDetection_inserts:
  assumes "det_matches d = Some (m # ms)"
    and "toLowerCase (resolveCardName m) \<notin> set (lowerNames (detectedCards s))"
  shows "detectedCards (processDetection r i d s) =
           AList.update (''card_'' @ showInt (idNow r) @ ''_'' @ decimal i)
             \<lparr>ident = ''card_'' @ showInt (idNow r) @ ''_'' @ decimal i,
              name = resolveCardName m, confidence = match_distance m,
              polygon = det_polygon d, cropSize = det_crop_size d,
              setId = orElse (match_set_id m) ''Unknown Set'',
              cardId = orElse (match_card_id m) ''Unknown ID'',
              timestamp = stampNow r, kept = False\<rparr>
             (detectedCards s)"
  using assms by (simp add: processDetection_def Let_def find_name_None not_recent_if_absent)

lemma processDetection_name_stored:
  assumes "det_matches d = Some (m # ms)"
  shows "toLowerCase (resolveCardName m) \<in> set (lowerNames (detectedCards (processDetection r i d s)))"
proof (cases "toLowerCase (resolveCardName m) \<in> set (lowerNames (detectedCards s))")
  case True
  then show ?thesis using assms by (simp add: processDetection_rejects)
next
  case False
  show ?thesis
    unfolding processDetection_inserts [OF assms False]
    using lowerNames_update_mem [of "\<lparr>ident = ''card_'' @ showInt (idNow r) @ ''_'' @ decimal i,
              name = resolveCardName m, confidence = match_distance m,
              polygon = det_polygon d, cropSize = det_crop_size d,
              setId = orElse (match_set_id m) ''Unknown Set'',
              cardId = orElse (match_card_id m) ''Unknown ID'',
              timestamp = stampNow r, kept = False\<rparr>"]
    by simp
qed

subsection \<open>The detection cache\<close>

text \<open>
  C1. Whatever events the controller has gone through since its construction (responses
  handled by \<open>handleBackendResponse\<close>, WebSocket detections handled by
  \<open>handleDetection\<close>, removals, anything else), two different entries of the cache that
  are both within the cooldown window at a time \<open>now\<close> never have the same
  case-insensitive name.
\<close>

theorem dedup_invariant:
  assumes "i < j" and "j < length (detectedCards (run evs))"
    and "withinCooldown now (snd (detectedCards (run evs) ! i))"
    and "withinCooldown now (snd (detectedCards (run evs) ! j))"
  shows "toLowerCase (name (snd (detectedCards (run evs) ! i)))
           \<noteq> toLowerCase (name (snd (detectedCards (run evs) ! j)))"
proof -
  have d: "distinct (lowerNames (detectedCards (run evs)))"
    by (rule run_distinct)
  have len: "length (lowerNames (detectedCards (run evs))) = length (detectedCards (run evs))"
    by (simp add: lowerNames_def mapValues_def)
  have "lowerNames (detectedCards (run evs)) ! i \<noteq> lowerNames (detectedCards (run evs)) ! j"
    using d assms(1,2) len by (simp add: nth_eq_iff_index_eq)
  then show ?thesis
    using assms(1,2) by (simp add: lowerNames_def mapValues_def)
qed

theorem dedup_invariant_witness:
  "length (detectedCards (run [CameraGranted, CanPlay 2, Fire 3, Fire 4, BlobReady,
      FetchSettled (Response 200 (Json \<lparr>detail = None, num_detections = Some 2,
        detections = Some [detectionOf pikachu, detectionOf setOnly]\<rparr>)) (always 1000)])) = 2
   \<and> toLowerCase ''Pikachu'' \<noteq> toLowerCase ''base1''"
proof -
  let ?evs = "[CameraGranted, CanPlay 2, Fire 3, Fire 4, BlobReady,
      FetchSettled (Response 200 (Json \<lparr>detail = None, num_detections = Some 2,
        detections = Some [detectionOf pikachu, detectionOf setOnly]\<rparr>)) (always 1000)]"
  have cards: "detectedCards (run ?evs) =
      [(''card_1000_0'',
        \<lparr>ident = ''card_1000_0'', name = ''Pikachu'', confidence = Some 3.2,
         polygon = Some square, cropSize = None, setId = ''Unknown Set'',
         cardId = ''Unknown ID'', timestamp = 1000, kept = False\<rparr>),
       (''card_1000_1'',
        \<lparr>ident = ''card_1000_1'', name = ''base1'', confidence = Some 7,
         polygon = Some square, cropSize = None, setId = ''base1'',
         cardId = ''Unknown ID'', timestamp = 1000, kept = False\<rparr>)]"
    by (simp add: run_def step_def constructor_def fresh_def connectWebSocket_def
          startBackendHealthCheck_def setInterval_def setTimeout_def oncanplay_def
          startPeriodicProcessing_def logMessage_def fire_def runCallback_def clearInterval_def
          captureFrame_def processFrameWithBackend_def settleRequest_def catchFinally_def
          afterFetch_def ok_def
          handleBackendResponse_def processDetection_def resolveCardName_def truthy_def trim_def
          isSpace_def isRecentlyDetected_def mapValues_def toLowerCase_def lowerChar_def
          drawDetectionOverlay_def detectionOf_def pikachu_def setOnly_def always_def
          readingsAt_def showInt_def decimal.simps digit_def orElse_def Let_def)
  show ?thesis
    using dedup_invariant [of 0 1 ?evs 5000]
    by (simp add: cards withinCooldown_def)
qed


text \<open>
  C2, as the code has it. When two processed detections resolve to the same
  case-insensitive name, the second is rejected and leaves the whole state, the cache
  included, as it is, whatever the clock reads: within the cooldown window and beyond it.
  The test \<open>existingCard\<close> does not look at the timestamp, so the cache never gets a
  second card of that name while the first is stored.
\<close>

theorem same_name_rejected_while_stored:
  assumes "det_matches d1 = Some (m1 # ms1)" and "det_matches d2 = Some (m2 # ms2)"
    and "toLowerCase (resolveCardName m1) = toLowerCase (resolveCardName m2)"
  shows "processDetection r2 j d2 (processDetection r1 i d1 s) = processDetection r1 i d1 s"
proof -
  have "toLowerCase (resolveCardName m2)
          \<in> set (lowerNames (detectedCards (processDetection r1 i d1 s)))"
    using processDetection_name_stored [OF assms(1), of r1 i s] assms(3) by simp
  then show ?thesis
    by (rule processDetection_rejects [OF assms(2)])
qed

theorem same_name_rejected_while_stored_witness:
  "stampNow (readingsAt 200000) - stampNow (readingsAt 1000) > 2 * 60 * 1000
   \<and> processDetection (readingsAt 200000) 0 (detectionOf pikachu)
         (processDetection (readingsAt 1000) 0 (detectionOf pikachu) fresh)
       = processDetection (readingsAt 1000) 0 (detectionOf pikachu) fresh"
  using same_name_rejected_while_stored
          [of "detectionOf pikachu" pikachu "[]" "detectionOf pikachu" pikachu "[]"
              "readingsAt 200000" 0 "readingsAt 1000" 0 fresh]
  by (simp add: detectionOf_def readingsAt_def)

text \<open>
  The claim as stated fails: a second Pikachu that arrives 199 seconds after the first,
  with nothing removed in between, is not inserted; the cache holds one card.
\<close>

theorem cooldown_expiry_counterexample:
  "stampNow (readingsAt 200000) - stampNow (readingsAt 1000) > 2 * 60 * 1000
   \<and> length (detectedCards (processDetection (readingsAt 1000) 0 (detectionOf pikachu) fresh)) = 1
   \<and> length (detectedCards (processDetection (readingsAt 200000) 0 (detectionOf pikachu)
         (processDetection (readingsAt 1000) 0 (detectionOf pikachu) fresh))) = 1"
  by (simp add: processDetection_def resolveCardName_def truthy_def trim_def isSpace_def
        isRecentlyDetected_def mapValues_def toLowerCase_def lowerChar_def detectionOf_def
        pikachu_def readingsAt_def fresh_def logMessage_def Let_def)


text \<open>
  C4, as the code has it. For a detection with a non-empty matches list, every card the
  cache holds after \<open>processDetection\<close> was there before or carries the display name of
  the best match: the trimmed name when the name is present and not blank, else the trimmed
  card identifier, else the trimmed set identifier, else \<open>Unknown Card\<close>; and when no
  stored card has that name in any letter case, the card is stored under the new key.
\<close>

theorem display_name_resolution:
  assumes "det_matches d = Some (m # ms)"
  shows "(\<forall>e \<in> set (mapValues (detectedCards (processDetection r i d s))).
            e \<in> set (mapValues (detectedCards s)) \<or> name e = displayName m)
       \<and> (toLowerCase (displayName m) \<notin> set (lowerNames (detectedCards s)) \<longrightarrow>
            (\<exists>e. map_of (detectedCards (processDetection r i d s))
                    (''card_'' @ showInt (idNow r) @ ''_'' @ decimal i) = Some e
                 \<and> name e = displayName m))"
proof (cases "toLowerCase (resolveCardName m) \<in> set (lowerNames (detectedCards s))")
  case True
  then show ?thesis
    using assms by (simp add: processDetection_rejects resolveCardName_displayName)
next
  case False
  have ins: "detectedCards (processDetection r i d s) =
           AList.update (''card_'' @ showInt (idNow r) @ ''_'' @ decimal i)
             \<lparr>ident = ''card_'' @ showInt (idNow r) @ ''_'' @ decimal i,
              name = resolveCardName m, confidence = match_distance m,
              polygon = det_polygon d, cropSize = det_crop_size d,
              setId = orElse (match_set_id m) ''Unknown Set'',
              cardId = orElse (match_card_id m) ''Unknown ID'',
              timestamp = stampNow r, kept = False\<rparr>
             (detectedCards s)"
    by (rule processDetection_inserts [OF assms False])
  have stored: "map_of (detectedCards (processDetection r i d s))
                  (''card_'' @ showInt (idNow r) @ ''_'' @ decimal i)
                = Some \<lparr>ident = ''card_'' @ showInt (idNow r) @ ''_'' @ decimal i,
              name = resolveCardName m, confidence = match_distance m,
              polygon = det_polygon d, cropSize = det_crop_size d,
              setId = orElse (match_set_id m) ''Unknown Set'',
              cardId = orElse (match_card_id m) ''Unknown ID'',
              timestamp = stampNow r, kept = False\<rparr>"
    unfolding ins by (simp add: update_conv')
  have others: "e \<in> set (mapValues (detectedCards s)) \<or> name e = displayName m"
    if "e \<in> set (mapValues (detectedCards (processDetection r i d s)))" for e
  proof -
    have "e \<in> insert \<lparr>ident = ''card_'' @ showInt (idNow r) @ ''_'' @ decimal i,
              name = resolveCardName m, confidence = match_distance m,
              polygon = det_polygon d, cropSize = det_crop_size d,
              setId = orElse (match_set_id m) ''Unknown Set'',
              cardId = orElse (match_card_id m) ''Unknown ID'',
              timestamp = stampNow r, kept = False\<rparr> (set (mapValues (detectedCards s)))"
      using that mapValues_update_subset unfolding ins by blast
    then show ?thesis
      by (auto simp: resolveCardName_displayName)
  qed
  show ?thesis
    using stored others by (simp add: resolveCardName_displayName)
qed

theorem display_name_resolution_witness:
  "map (name \<circ> snd) (detectedCards (processDetection (readingsAt 1000) 0 (detectionOf setOnly) fresh))
     = [''base1'']
   \<and> displayName setOnly = ''base1''"
proof -
  have dn: "displayName setOnly = ''base1''"
    by (simp add: displayName_def nonBlank_def setOnly_def trim_def isSpace_def)
  have "\<exists>e. map_of (detectedCards (processDetection (readingsAt 1000) 0 (detectionOf setOnly) fresh))
               (''card_'' @ showInt (idNow (readingsAt 1000)) @ ''_'' @ decimal 0) = Some e
            \<and> name e = displayName setOnly"
    using display_name_resolution [of "detectionOf setOnly" setOnly "[]" "readingsAt 1000" 0 fresh]
    by (simp add: detectionOf_def fresh_def lowerNames_def mapValues_def)
  then show ?thesis
    by (simp add: dn processDetection_def resolveCardName_def truthy_def trim_def isSpace_def
        isRecentlyDetected_def mapValues_def toLowerCase_def lowerChar_def detectionOf_def
        setOnly_def readingsAt_def fresh_def logMessage_def Let_def)
qed

text \<open>
  The claim as stated fails where the name has surrounding white space: the stored name
  is the trimmed name, not the name of the match.
\<close>

theorem untrimmed_name_counterexample:
  "map (name \<circ> snd)
     (detectedCards (processDetection (readingsAt 1000) 0 (detectionOf pikachuPadded) fresh))
     = [''Pikachu'']
   \<and> match_name pikachuPadded = Some '' Pikachu ''
   \<and> ''Pikachu'' \<noteq> '' Pikachu ''"
  by (simp add: processDetection_def resolveCardName_def truthy_def trim_def isSpace_def
        isRecentlyDetected_def mapValues_def toLowerCase_def lowerChar_def detectionOf_def
        pikachuPadded_def readingsAt_def fresh_def logMessage_def Let_def)


text \<open>
  C9. \<open>removeAllCards\<close> leaves the cache empty. On a cache that holds cards, the message
  it logs last reports the number of cards the cache held before the call; on an empty
  cache it changes nothing but the log, where it reports that there were no cards to remove.
\<close>

theorem removeAll_postcondition:
  "detectedCards (removeAllCards s) = []
   \<and> (detectedCards s \<noteq> [] \<longrightarrow>
        last (messageLog (removeAllCards s)) = (RemovedAll (length (detectedCards s)), Info))
   \<and> (detectedCards s = [] \<longrightarrow>
        removeAllCards s = logMessage NoCardsToRemove Info s
        \<and> last (messageLog (removeAllCards s)) = (NoCardsToRemove, Info))"
  by (simp add: removeAllCards_def Let_def last_logMessage)

theorem removeAll_postcondition_witness:
  "length (detectedCards (processDetection (readingsAt 1000) 0 (detectionOf pikachu) fresh)) = 1
   \<and> detectedCards (removeAllCards
         (processDetection (readingsAt 1000) 0 (detectionOf pikachu) fresh)) = []
   \<and> last (messageLog (removeAllCards
         (processDetection (readingsAt 1000) 0 (detectionOf pikachu) fresh))) = (RemovedAll 1, Info)
   \<and> detectedCards fresh = []
   \<and> last (messageLog (removeAllCards fresh)) = (NoCardsToRemove, Info)"
proof -
  let ?s = "processDetection (readingsAt 1000) 0 (detectionOf pikachu) fresh"
  have one: "length (detectedCards ?s) = 1"
    by (simp add: processDetection_def resolveCardName_def truthy_def trim_def isSpace_def
        isRecentlyDetected_def mapValues_def toLowerCase_def lowerChar_def detectionOf_def
        pikachu_def readingsAt_def fresh_def logMessage_def Let_def)
  have empty: "detectedCards fresh = []"
    by (simp add: fresh_def)
  show ?thesis
    using removeAll_postcondition [of ?s] removeAll_postcondition [of fresh] one empty
    by auto
qed


text \<open>
  C10. A detection whose matches list is missing or empty is skipped by the loop of
  \<open>handleBackendResponse\<close>: the body leaves the state as it is, so no card is stored for
  it, and the rest of the response is processed as if it were not there. The response
  still hands it to the overlay, which draws its polygon when that is not empty.
\<close>

theorem no_matches_skipped:
  assumes "det_matches d = None \<or> det_matches d = Some []"
  shows "processDetection r i d s = s
       \<and> processEach clk i (d # ds) s = processEach clk (i + 1) ds s
       \<and> animationFrames (handleBackendResponse clk
             \<lparr>detail = dt, num_detections = n, detections = Some (d # ds)\<rparr> s)
           = animationFrames s @ [map (\<lambda>x. (det_polygon x, det_matches x)) (d # ds)]
       \<and> (det_polygon d = Some (p # ps) \<longrightarrow>
            length (ops (drawDetection measureText i (det_polygon d, det_matches d) ctx))
              > length (ops ctx))"
proof -
  have skip: "processDetection r k d s = s" for r k s
    using assms by (auto simp: processDetection_def)
  have frames: "animationFrames (processEach clk k xs t) = animationFrames t" for k xs t
  proof (induction xs arbitrary: k t)
    case Nil
    then show ?case by simp
  next
    case (Cons x xs)
    have "animationFrames (processDetection (clk k) k x t) = animationFrames t"
      by (simp add: processDetection_def Let_def logMessage_def split: option.splits list.splits)
    then show ?case using Cons by simp
  qed
  have draw: "det_polygon d = Some (p # ps) \<Longrightarrow>
      length (ops (drawDetection measureText i (det_polygon d, det_matches d) ctx)) > length (ops ctx)"
    by (cases p) (simp add: drawDetection_def Let_def)
  show ?thesis
    using skip draw
    by (simp add: handleBackendResponse_def drawDetectionOverlay_def frames)
qed

theorem no_matches_skipped_witness:
  "det_matches noMatches = Some []
   \<and> det_polygon noMatches = Some square
   \<and> detectedCards (processDetection (readingsAt 1000) 0 noMatches fresh) = []
   \<and> length (ops (drawDetection fixedWidth 0 (det_polygon noMatches, det_matches noMatches)
        (overlay fresh))) > 0"
  using no_matches_skipped [where d = noMatches and r = "readingsAt 1000" and i = 0
          and s = fresh and clk = "always 1000" and ds = "[]" and dt = None and n = None
          and p = "(10, 10)" and ps = "[(50, 10), (50, 70), (10, 70)]"
          and measureText = fixedWidth and ctx = "overlay fresh"]
  by (simp add: noMatches_def square_def fresh_def)


subsection \<open>The overlay\<close>

lemma drawEach_append:
  "drawEach measureText i (xs @ ys) ctx
     = drawEach measureText (i + length xs) ys (drawEach measureText i xs ctx)"
  by (induction xs arbitrary: i ctx) simp_all

lemma drawDetection_extends: "\<exists>drawn. ops (drawDetection measureText i det ctx) = ops ctx @ drawn"
  by (cases det) (auto simp: drawDetection_def Let_def split: option.splits list.splits)

lemma drawEach_extends: "\<exists>drawn. ops (drawEach measureText i ds ctx) = ops ctx @ drawn"
proof (induction ds arbitrary: i ctx)
  case Nil
  then show ?case by simp
next
  case (Cons det ds)
  obtain a where a: "ops (drawDetection measureText i det ctx) = ops ctx @ a"
    using drawDetection_extends by blast
  obtain b where "ops (drawEach measureText (i + 1) ds (drawDetection measureText i det ctx))
                    = ops (drawDetection measureText i det ctx) @ b"
    using Cons by blast
  then show ?case using a by simp
qed

lemma renderPass_drawEach:
  "renderPass measureText ds ctx = drawEach measureText 0 ds (ctx\<lparr>ops := ops ctx @ [ClearRect]\<rparr>)"
  by (cases ds) (simp_all add: renderPass_def Let_def)

text \<open>
  C8, as the code has it. A render pass first clears the canvas, and on an empty list it
  does nothing else. It then goes through the detections in order, the detection at
  position \<open>k\<close> being drawn on what the first \<open>k\<close> have left. A detection without a
  polygon, or with an empty one, draws nothing. One with a first vertex \<open>(x, y)\<close> draws
  the closed path through its vertices, filled translucent and stroked; the label
  background, as wide as the measured label plus 20; the label; and the badge with the
  number \<open>k + 1\<close>, all anchored at \<open>(x, y)\<close>. The label is the trimmed name of the best
  match when that is present and not blank, else its trimmed card identifier, else, and
  also when there are no matches, \<open>Card\<close> followed by the number \<open>k + 1\<close>.
\<close>

theorem overlay_render_contract:
  "renderPass measureText [] ctx = ctx\<lparr>ops := ops ctx @ [ClearRect]\<rparr>
   \<and> (\<exists>drawn. ops (renderPass measureText ds ctx) = ops ctx @ ClearRect # drawn)
   \<and> (\<forall>k < length ds. renderPass measureText (take (Suc k) ds) ctx
          = drawDetection measureText k (ds ! k) (renderPass measureText (take k ds) ctx))
   \<and> (pg = None \<or> pg = Some [] \<longrightarrow> drawDetection measureText k (pg, ms) c = c)
   \<and> ops (drawDetection measureText k (Some ((x, y) # rest), ms) c)
       = ops c @ [BeginPath, MoveTo x y] @ map (\<lambda>p. LineTo (fst p) (snd p)) rest
         @ [ClosePath,
            Fill ''rgba(16, 185, 129, 0.1)'',
            Stroke ''#10b981'' 3,
            FillRect ''rgba(16, 185, 129, 0.9)'' (x - 10) (y - 35)
              (measureText (font c) (overlayLabel k ms) + 20) 30,
            FillText ''#ffffff'' ''bold 14px Arial'' (overlayLabel k ms)
              (x + measureText (font c) (overlayLabel k ms) / 2) (y - 20),
            FillRect ''#10b981'' (x - 25) (y - 25) 30 30,
            FillText ''#ffffff'' ''bold 16px Arial'' (decimal (k + 1)) (x - 10) (y - 8)]
   \<and> overlayLabel k ms =
       (case ms of
          Some (m # _) \<Rightarrow>
            if nonBlank (match_name m) then trim (the (match_name m))
            else if nonBlank (match_card_id m) then trim (the (match_card_id m))
            else ''Card '' @ decimal (k + 1)
        | _ \<Rightarrow> ''Card '' @ decimal (k + 1))"
proof -
  have empty: "renderPass measureText [] ctx = ctx\<lparr>ops := ops ctx @ [ClearRect]\<rparr>"
    by (simp add: renderPass_def)
  have clears: "\<exists>drawn. ops (renderPass measureText ds ctx) = ops ctx @ ClearRect # drawn"
    using drawEach_extends [of measureText 0 ds "ctx\<lparr>ops := ops ctx @ [ClearRect]\<rparr>"]
    by (auto simp: renderPass_drawEach)
  have each: "renderPass measureText (take (Suc j) ds) ctx
          = drawDetection measureText j (ds ! j) (renderPass measureText (take j ds) ctx)"
    if "j < length ds" for j
  proof -
    have "take (Suc j) ds = take j ds @ [ds ! j]"
      using that by (simp add: take_Suc_conv_app_nth)
    then show ?thesis
      using that by (simp add: renderPass_drawEach drawEach_append)
  qed
  have undrawn: "pg = None \<or> pg = Some [] \<longrightarrow> drawDetection measureText k (pg, ms) c = c"
    by (auto simp: drawDetection_def)
  have drawn: "ops (drawDetection measureText k (Some ((x, y) # rest), ms) c)
       = ops c @ [BeginPath, MoveTo x y] @ map (\<lambda>p. LineTo (fst p) (snd p)) rest
         @ [ClosePath,
            Fill ''rgba(16, 185, 129, 0.1)'',
            Stroke ''#10b981'' 3,
            FillRect ''rgba(16, 185, 129, 0.9)'' (x - 10) (y - 35)
              (measureText (font c) (overlayLabel k ms) + 20) 30,
            FillText ''#ffffff'' ''bold 14px Arial'' (overlayLabel k ms)
              (x + measureText (font c) (overlayLabel k ms) / 2) (y - 20),
            FillRect ''#10b981'' (x - 25) (y - 25) 30 30,
            FillText ''#ffffff'' ''bold 16px Arial'' (decimal (k + 1)) (x - 10) (y - 8)]"
    by (simp add: drawDetection_def Let_def)
  have label: "overlayLabel k ms =
       (case ms of
          Some (m # _) \<Rightarrow>
            if nonBlank (match_name m) then trim (the (match_name m))
            else if nonBlank (match_card_id m) then trim (the (match_card_id m))
            else ''Card '' @ decimal (k + 1)
        | _ \<Rightarrow> ''Card '' @ decimal (k + 1))"
  proof (cases ms)
    case None
    then show ?thesis by (simp add: overlayLabel_def)
  next
    case (Some l)
    show ?thesis
    proof (cases l)
      case Nil
      then show ?thesis using Some by (simp add: overlayLabel_def)
    next
      case (Cons m tl)
      then show ?thesis
        using Some
        by (cases "match_name m"; cases "match_card_id m")
           (auto simp: overlayLabel_def nonBlank_def truthy_def trim_Nil)
    qed
  qed
  from each have each': "\<forall>j < length ds. renderPass measureText (take (Suc j) ds) ctx
          = drawDetection measureText j (ds ! j) (renderPass measureText (take j ds) ctx)"
    by blast
  show ?thesis
    by (rule conjI [OF empty conjI [OF clears conjI [OF each' conjI [OF undrawn
          conjI [OF drawn label]]]]])
qed

theorem overlay_render_contract_witness:
  "ops (renderPass fixedWidth [(Some [(10, 10), (50, 10), (50, 70)], Some [pikachu]), (Some [], None)]
          (overlay fresh))
     = [ClearRect, BeginPath, MoveTo 10 10, LineTo 50 10, LineTo 50 70, ClosePath,
        Fill ''rgba(16, 185, 129, 0.1)'', Stroke ''#10b981'' 3,
        FillRect ''rgba(16, 185, 129, 0.9)'' 0 (- 25) 60 30,
        FillText ''#ffffff'' ''bold 14px Arial'' ''Pikachu'' 30 (- 10),
        FillRect ''#10b981'' (- 15) (- 15) 30 30,
        FillText ''#ffffff'' ''bold 16px Arial'' ''1'' 0 2]"
proof -
  let ?a = "(Some [(10, 10), (50, 10), (50, 70)], Some [pikachu])"
  let ?b = "(Some [], None) :: point list option \<times> match list option"
  let ?ds = "[?a, ?b]"
  let ?c0 = "renderPass fixedWidth [] (overlay fresh)"
  note c = overlay_render_contract [where measureText = fixedWidth and ds = ?ds
             and ctx = "overlay fresh" and pg = "Some []" and ms = "Some [pikachu]"
             and k = 0 and x = 10 and y = 10 and rest = "[(50, 10), (50, 70)]" and c = ?c0]
  have cleared: "?c0 = \<lparr>font = ''10px sans-serif'', ops = [ClearRect]\<rparr>"
    using c [THEN conjunct1] by (simp add: fresh_def)
  have each: "\<forall>k < length ?ds. renderPass fixedWidth (take (Suc k) ?ds) (overlay fresh)
          = drawDetection fixedWidth k (?ds ! k) (renderPass fixedWidth (take k ?ds) (overlay fresh))"
    by (rule c [THEN conjunct2, THEN conjunct2, THEN conjunct1])
  have step0: "renderPass fixedWidth [?a] (overlay fresh) = drawDetection fixedWidth 0 ?a ?c0"
    using each [rule_format, of 0] by simp
  have step1: "renderPass fixedWidth ?ds (overlay fresh)
                 = drawDetection fixedWidth 1 ?b (renderPass fixedWidth [?a] (overlay fresh))"
    using each [rule_format, of 1] by simp
  have skip: "drawDetection fixedWidth 1 ?b c = c" for c
    using overlay_render_contract [where pg = "Some []" and ms = None and k = 1
            and measureText = fixedWidth and c = c, THEN conjunct2, THEN conjunct2,
            THEN conjunct2, THEN conjunct1]
    by simp
  have label: "overlayLabel 0 (Some [pikachu]) = ''Pikachu''"
    by (simp add: overlayLabel_def pikachu_def truthy_def trim_def isSpace_def)
  have drawn: "ops (drawDetection fixedWidth 0 ?a ?c0)
       = ops ?c0 @ [BeginPath, MoveTo 10 10] @ map (\<lambda>p. LineTo (fst p) (snd p)) [(50, 10), (50, 70)]
         @ [ClosePath,
            Fill ''rgba(16, 185, 129, 0.1)'',
            Stroke ''#10b981'' 3,
            FillRect ''rgba(16, 185, 129, 0.9)'' (10 - 10) (10 - 35)
              (fixedWidth (font ?c0) (overlayLabel 0 (Some [pikachu])) + 20) 30,
            FillText ''#ffffff'' ''bold 14px Arial'' (overlayLabel 0 (Some [pikachu]))
              (10 + fixedWidth (font ?c0) (overlayLabel 0 (Some [pikachu])) / 2) (10 - 20),
            FillRect ''#10b981'' (10 - 25) (10 - 25) 30 30,
            FillText ''#ffffff'' ''bold 16px Arial'' (decimal (0 + 1)) (10 - 10) (10 - 8)]"
    by (rule c [THEN conjunct2, THEN conjunct2, THEN conjunct2, THEN conjunct2, THEN conjunct1])
  have "ops (renderPass fixedWidth ?ds (overlay fresh)) = ops (drawDetection fixedWidth 0 ?a ?c0)"
    by (simp only: step1 skip step0)
  also note drawn
  also have "ops ?c0 @ [BeginPath, MoveTo 10 10] @ map (\<lambda>p. LineTo (fst p) (snd p)) [(50, 10), (50, 70)]
         @ [ClosePath,
            Fill ''rgba(16, 185, 129, 0.1)'',
            Stroke ''#10b981'' 3,
            FillRect ''rgba(16, 185, 129, 0.9)'' (10 - 10) (10 - 35)
              (fixedWidth (font ?c0) (overlayLabel 0 (Some [pikachu])) + 20) 30,
            FillText ''#ffffff'' ''bold 14px Arial'' (overlayLabel 0 (Some [pikachu]))
              (10 + fixedWidth (font ?c0) (overlayLabel 0 (Some [pikachu])) / 2) (10 - 20),
            FillRect ''#10b981'' (10 - 25) (10 - 25) 30 30,
            FillText ''#ffffff'' ''bold 16px Arial'' (decimal (0 + 1)) (10 - 10) (10 - 8)]
     = [ClearRect, BeginPath, MoveTo 10 10, LineTo 50 10, LineTo 50 70, ClosePath,
        Fill ''rgba(16, 185, 129, 0.1)'', Stroke ''#10b981'' 3,
        FillRect ''rgba(16, 185, 129, 0.9)'' 0 (- 25) 60 30,
        FillText ''#ffffff'' ''bold 14px Arial'' ''Pikachu'' 30 (- 10),
        FillRect ''#10b981'' (- 15) (- 15) 30 30,
        FillText ''#ffffff'' ''bold 16px Arial'' ''1'' 0 2]"
    by (simp add: label cleared fixedWidth_def decimal.simps digit_def)
  finally show ?thesis .
qed

text \<open>
  The claim as stated fails on the label: for a best match that has only a set identifier
  the cache stores the set identifier, and the overlay writes \<open>Card 1\<close>.
\<close>

theorem overlay_label_counterexample:
  "resolveCardName setOnly = ''base1''
   \<and> overlayLabel 0 (Some [setOnly]) = ''Card 1''
   \<and> ''Card 1'' \<noteq> ''base1''"
  by (simp add: resolveCardName_def overlayLabel_def setOnly_def truthy_def trim_def isSpace_def
        decimal.simps digit_def)


subsection \<open>The capture scheduler and the recognition request\<close>

lemma catchFinally_clears: "isProcessing (catchFinally outcome) = False"
  by (simp add: catchFinally_def Let_def)

lemma settleRequest_clears: "isProcessing (settleRequest clk r s) = False"
  by (simp add: settleRequest_def catchFinally_clears)

lemma step_in_flight:
  assumes "inFlight s = (if isProcessing s then 1 else 0)"
  shows "inFlight (step s e) = (if isProcessing (step s e) then 1 else 0)"
proof (cases e)
  case BlobReady
  then show ?thesis
    using assms by (simp add: step_def processFrameWithBackend_def)
next
  case (BlobFailed m)
  then show ?thesis
    using assms by (simp add: step_def processFrameWithBackend_def catchFinally_clears)
next
  case (FetchSettled r clk)
  then show ?thesis
    using assms by (simp add: step_def settleRequest_clears split: if_splits)
next
  case (SocketMessage n m clk)
  then show ?thesis
    using assms by (simp add: step_def)
qed (use assms in \<open>simp_all add: step_def\<close>)

lemma foldl_step_in_flight:
  "inFlight s = (if isProcessing s then 1 else 0)
     \<Longrightarrow> inFlight (foldl step s evs) = (if isProcessing (foldl step s evs) then 1 else 0)"
proof (induction evs arbitrary: s)
  case Nil
  then show ?case by simp
next
  case (Cons e evs)
  show ?case
    using Cons.IH [OF step_in_flight [OF Cons.prems, of e]] by simp
qed

lemma run_in_flight: "inFlight (run evs) = (if isProcessing (run evs) then 1 else 0)"
  unfolding run_def
  by (rule foldl_step_in_flight)
     (simp add: constructor_def fresh_def setTimeout_def startBackendHealthCheck_def
        setInterval_def connectWebSocket_def)

text \<open>
  C3. In every state the controller can reach, at most one recognition request is
  outstanding, and one is outstanding exactly when the in-flight flag is set. In any state
  \<open>s\<close> in which the flag is set or there is no stream, the closure of the capture interval
  and the closure of its 25 ms delay both leave the state as it is: when the interval
  fires, whatever interval it was set with, nothing changes, and when the delay fires only
  the spent timeout leaves the table; no delayed capture is scheduled, no frame is captured
  and no request is issued. With the flag set, \<open>processFrameWithBackend\<close> itself issues
  no request. With a stream and the flag clear, the tick does schedule the delayed capture.
\<close>

theorem single_in_flight:
  "inFlight (run evs) \<le> 1
   \<and> (inFlight (run evs) = 1) = isProcessing (run evs)
   \<and> (isProcessing s \<or> \<not> stream s \<longrightarrow>
        runCallback CaptureTick s = s
        \<and> runCallback CaptureDelay s = s
        \<and> (map_of (timers s) h = Some \<lparr>callback = CaptureTick, delay = d, repeats = True\<rparr> \<longrightarrow>
             fire h s = s)
        \<and> (map_of (timers s) h = Some \<lparr>callback = CaptureDelay, delay = d, repeats = False\<rparr> \<longrightarrow>
             fire h s = clearInterval h s))
   \<and> (isProcessing s \<longrightarrow>
        inFlight (processFrameWithBackend b s) = inFlight s
        \<and> pendingBlobs (processFrameWithBackend b s) = pendingBlobs s
        \<and> timers (processFrameWithBackend b s) = timers s)
   \<and> (stream s \<and> \<not> isProcessing s \<longrightarrow>
        runCallback CaptureTick s = snd (setTimeout CaptureDelay 25 s)
        \<and> runCallback CaptureDelay s = captureFrame s)"
proof -
  have inv: "inFlight (run evs) = (if isProcessing (run evs) then 1 else 0)"
    by (rule run_in_flight)
  have closures: "isProcessing s \<or> \<not> stream s \<longrightarrow>
        runCallback CaptureTick s = s \<and> runCallback CaptureDelay s = s"
    by (auto simp: runCallback_def)
  have tick: "isProcessing s \<or> \<not> stream s \<longrightarrow>
        map_of (timers s) h = Some \<lparr>callback = CaptureTick, delay = d, repeats = True\<rparr> \<longrightarrow>
        fire h s = s"
    by (auto simp: fire_def runCallback_def)
  have late: "isProcessing s \<or> \<not> stream s \<longrightarrow>
        map_of (timers s) h = Some \<lparr>callback = CaptureDelay, delay = d, repeats = False\<rparr> \<longrightarrow>
        fire h s = clearInterval h s"
    by (auto simp: fire_def runCallback_def clearInterval_def)
  have gate: "isProcessing s \<longrightarrow>
        inFlight (processFrameWithBackend b s) = inFlight s
        \<and> pendingBlobs (processFrameWithBackend b s) = pendingBlobs s
        \<and> timers (processFrameWithBackend b s) = timers s"
    by (simp add: processFrameWithBackend_def)
  have go: "stream s \<and> \<not> isProcessing s \<longrightarrow>
        runCallback CaptureTick s = snd (setTimeout CaptureDelay 25 s)
        \<and> runCallback CaptureDelay s = captureFrame s"
    by (simp add: runCallback_def)
  show ?thesis
    using inv closures tick late gate go by simp
qed

theorem single_in_flight_witness:
  "isProcessing (run [CameraGranted, CanPlay 2, Fire 3, Fire 4, BlobReady])
   \<and> inFlight (run [CameraGranted, CanPlay 2, Fire 3, Fire 4, BlobReady]) = 1
   \<and> map_of (timers (run [CameraGranted, CanPlay 2, Fire 3, Fire 4, BlobReady])) 3
       = Some \<lparr>callback = CaptureTick, delay = 500, repeats = True\<rparr>
   \<and> fire 3 (run [CameraGranted, CanPlay 2, Fire 3, Fire 4, BlobReady])
       = run [CameraGranted, CanPlay 2, Fire 3, Fire 4, BlobReady]
   \<and> inFlight (processFrameWithBackend Blob (run [CameraGranted, CanPlay 2, Fire 3, Fire 4, BlobReady]))
       = 1
   \<and> \<not> stream (run [CameraGranted, CanPlay 2, Fire 3, ToggleCamera])
   \<and> \<not> isProcessing (run [CameraGranted, CanPlay 2, Fire 3, ToggleCamera])
   \<and> map_of (timers (run [CameraGranted, CanPlay 2, Fire 3, ToggleCamera])) 4
       = Some \<lparr>callback = CaptureDelay, delay = 25, repeats = False\<rparr>
   \<and> fire 4 (run [CameraGranted, CanPlay 2, Fire 3, ToggleCamera])
       = clearInterval 4 (run [CameraGranted, CanPlay 2, Fire 3, ToggleCamera])
   \<and> pendingBlobs (fire 4 (run [CameraGranted, CanPlay 2, Fire 3, ToggleCamera])) = 0
   \<and> runCallback CaptureTick (run [CameraGranted, CanPlay 2, Fire 3, ToggleCamera])
       = run [CameraGranted, CanPlay 2, Fire 3, ToggleCamera]
   \<and> stream (run [CameraGranted, CanPlay 2])
   \<and> \<not> isProcessing (run [CameraGranted, CanPlay 2])
   \<and> pendingBlobs (runCallback CaptureDelay (run [CameraGranted, CanPlay 2])) = 1"
proof -
  let ?busy = "run [CameraGranted, CanPlay 2, Fire 3, Fire 4, BlobReady]"
  let ?dark = "run [CameraGranted, CanPlay 2, Fire 3, ToggleCamera]"
  let ?idle = "run [CameraGranted, CanPlay 2]"
  have busy: "isProcessing ?busy"
    and tick: "map_of (timers ?busy) 3 = Some \<lparr>callback = CaptureTick, delay = 500, repeats = True\<rparr>"
    by (simp_all add: run_def step_def constructor_def fresh_def connectWebSocket_def
          startBackendHealthCheck_def setInterval_def setTimeout_def oncanplay_def
          startPeriodicProcessing_def logMessage_def fire_def runCallback_def clearInterval_def
          captureFrame_def processFrameWithBackend_def Let_def)
  have dark: "\<not> stream ?dark"
    and rest: "\<not> isProcessing ?dark"
    and late: "map_of (timers ?dark) 4 = Some \<lparr>callback = CaptureDelay, delay = 25, repeats = False\<rparr>"
    and none: "pendingBlobs ?dark = 0"
    by (simp_all add: run_def step_def constructor_def fresh_def connectWebSocket_def
          startBackendHealthCheck_def setInterval_def setTimeout_def oncanplay_def
          startPeriodicProcessing_def logMessage_def fire_def runCallback_def clearInterval_def
          stopCamera_def clearOverlay_def stopPeriodicProcessing_def Let_def)
  have cam: "stream ?idle"
    and idle: "\<not> isProcessing ?idle"
    and zero: "pendingBlobs ?idle = 0"
    by (simp_all add: run_def step_def constructor_def fresh_def connectWebSocket_def
          startBackendHealthCheck_def setInterval_def setTimeout_def oncanplay_def
          startPeriodicProcessing_def logMessage_def Let_def)
  note b = single_in_flight [where evs = "[CameraGranted, CanPlay 2, Fire 3, Fire 4, BlobReady]"
             and s = ?busy and h = 3 and d = 500 and b = Blob]
  note k = single_in_flight [where evs = "[]" and s = ?dark and h = 4 and d = 25 and b = Blob]
  note i = single_in_flight [where evs = "[]" and s = ?idle and h = 4 and d = 25 and b = Blob]
  have one: "inFlight ?busy = 1"
    using b busy by simp
  have b1: "fire 3 ?busy = ?busy"
    using b busy tick by blast
  have b2: "inFlight (processFrameWithBackend Blob ?busy) = 1"
    using b busy one by simp
  have k1: "fire 4 ?dark = clearInterval 4 ?dark"
    using k dark late by blast
  have k2: "runCallback CaptureTick ?dark = ?dark"
    using k dark by blast
  have k3: "pendingBlobs (fire 4 ?dark) = 0"
    unfolding k1 by (simp add: none)
  have i1: "runCallback CaptureDelay ?idle = captureFrame ?idle"
    using i cam idle by blast
  have i2: "pendingBlobs (runCallback CaptureDelay ?idle) = 1"
    unfolding i1 by (simp add: captureFrame_def cam zero)
  show ?thesis
    using busy one tick b1 b2 dark rest late k1 k3 k2 cam idle i2 by simp
qed








subsection \<open>The WebSocket channel and teardown\<close>

lemma handlesOk_frame:
  "timers t = timers s \<Longrightarrow> nextHandle t = nextHandle s
     \<Longrightarrow> heartbeatInterval t = heartbeatInterval s \<Longrightarrow> handlesOk t = handlesOk s"
  by (simp add: handlesOk_def split: option.splits)

lemma handlesOk_update [simp]:
  "handlesOk (s\<lparr>stream := a\<rparr>) = handlesOk s"
  "handlesOk (s\<lparr>isConnected := a\<rparr>) = handlesOk s"
  "handlesOk (s\<lparr>sockets := b\<rparr>) = handlesOk s"
  "handlesOk (s\<lparr>processingInterval := c\<rparr>) = handlesOk s"
  "handlesOk (s\<lparr>healthCheckInterval := c\<rparr>) = handlesOk s"
  "handlesOk (s\<lparr>pendingBlobs := d\<rparr>) = handlesOk s"
  "handlesOk (s\<lparr>inFlight := d\<rparr>) = handlesOk s"
  by (rule handlesOk_frame; simp)+

lemma handlesOk_clearInterval: "handlesOk s \<Longrightarrow> handlesOk (clearInterval h s)"
  by (auto simp: handlesOk_def clearInterval_def list_all_iff split: option.splits)

lemma handlesOk_setInterval: "handlesOk s \<Longrightarrow> handlesOk (snd (setInterval cb d s))"
  by (fastforce simp: handlesOk_def setInterval_def list_all_iff split: option.splits)

lemma handlesOk_setTimeout: "handlesOk s \<Longrightarrow> handlesOk (snd (setTimeout cb d s))"
  by (fastforce simp: handlesOk_def setTimeout_def list_all_iff split: option.splits)

lemma handlesOk_logMessage [simp]: "handlesOk (logMessage m l s) = handlesOk s"
  by (rule handlesOk_frame) simp_all

lemma handlesOk_startHeartbeat: "handlesOk s \<Longrightarrow> handlesOk (startHeartbeat s)"
  by (fastforce simp: handlesOk_def startHeartbeat_def setInterval_def list_all_iff
        split: option.splits)

lemma handlesOk_stopHeartbeat: "handlesOk s \<Longrightarrow> handlesOk (stopHeartbeat s)"
  by (auto simp: handlesOk_def stopHeartbeat_def clearInterval_def list_all_iff split: option.splits)

lemma handlesOk_stopPeriodicProcessing: "handlesOk s \<Longrightarrow> handlesOk (stopPeriodicProcessing s)"
proof (cases "processingInterval s")
  case None
  then show "handlesOk s \<Longrightarrow> ?thesis" by (simp add: stopPeriodicProcessing_def)
next
  case (Some h)
  assume "handlesOk s"
  then have "handlesOk (clearInterval h s)" by (rule handlesOk_clearInterval)
  then have "handlesOk ((clearInterval h s)\<lparr>processingInterval := None\<rparr>)"
    by simp
  then show ?thesis using Some by (simp add: stopPeriodicProcessing_def)
qed

lemma handlesOk_startPeriodicProcessing:
  assumes "handlesOk s"
  shows "handlesOk (startPeriodicProcessing fps s)"
proof (cases "stream s")
  case False
  then show ?thesis using assms by (simp add: startPeriodicProcessing_def)
next
  case True
  let ?s1 = "case processingInterval s of Some h \<Rightarrow> clearInterval h s | None \<Rightarrow> s"
  have s1: "handlesOk ?s1"
    using assms by (simp add: handlesOk_clearInterval split: option.splits)
  obtain h s2 where hs: "setInterval CaptureTick (1000 / real fps) ?s1 = (h, s2)"
    by (cases "setInterval CaptureTick (1000 / real fps) ?s1")
  have "handlesOk (snd (setInterval CaptureTick (1000 / real fps) ?s1))"
    by (rule handlesOk_setInterval [OF s1])
  then have "handlesOk s2"
    using hs by simp
  then show ?thesis
    using True hs by (simp add: startPeriodicProcessing_def Let_def)
qed

lemma handlesOk_stopCamera: "handlesOk s \<Longrightarrow> handlesOk (stopCamera s)"
proof -
  assume a: "handlesOk s"
  have "handlesOk (clearOverlay (s\<lparr>stream := False\<rparr>)) = handlesOk (s\<lparr>stream := False\<rparr>)"
    by (rule handlesOk_frame) simp_all
  then have "handlesOk (clearOverlay (s\<lparr>stream := False\<rparr>))"
    using a by simp
  then show ?thesis
    by (simp add: stopCamera_def a handlesOk_stopPeriodicProcessing)
qed

lemma handlesOk_stopBackendHealthCheck: "handlesOk s \<Longrightarrow> handlesOk (stopBackendHealthCheck s)"
proof (cases "healthCheckInterval s")
  case None
  then show "handlesOk s \<Longrightarrow> ?thesis" by (simp add: stopBackendHealthCheck_def)
next
  case (Some h)
  assume "handlesOk s"
  then have "handlesOk (clearInterval h s)" by (rule handlesOk_clearInterval)
  then have "handlesOk ((clearInterval h s)\<lparr>healthCheckInterval := None\<rparr>)"
    by simp
  then show ?thesis using Some by (simp add: stopBackendHealthCheck_def)
qed

lemma handlesOk_connectWebSocket [simp]: "handlesOk (connectWebSocket s) = handlesOk s"
  by (rule handlesOk_frame) simp_all

lemma handlesOk_wsClose [simp]: "handlesOk (wsClose n s) = handlesOk s"
  by (rule handlesOk_frame) simp_all

lemma handlesOk_cleanup: "handlesOk s \<Longrightarrow> handlesOk (cleanup s)"
  by (simp add: cleanup_def Let_def handlesOk_stopCamera handlesOk_stopHeartbeat
        handlesOk_stopBackendHealthCheck handlesOk_stopPeriodicProcessing split: option.splits)

lemma handlesOk_onopen: "handlesOk s \<Longrightarrow> handlesOk (onopen s)"
  by (simp add: onopen_def handlesOk_startHeartbeat)

lemma handlesOk_onclose: "handlesOk s \<Longrightarrow> handlesOk (onclose s)"
  by (simp add: onclose_def handlesOk_setTimeout handlesOk_stopHeartbeat)

lemma handlesOk_runCallback: "handlesOk s \<Longrightarrow> handlesOk (runCallback cb s)"
proof (cases cb)
  case CaptureTick
  then show "handlesOk s \<Longrightarrow> ?thesis" by (simp add: runCallback_def handlesOk_setTimeout)
next
  case CaptureDelay
  have "handlesOk (captureFrame s) = handlesOk s"
    by (rule handlesOk_frame) simp_all
  then show "handlesOk s \<Longrightarrow> ?thesis" using CaptureDelay by (simp add: runCallback_def)
next
  case Reconnect
  then show "handlesOk s \<Longrightarrow> ?thesis" by (simp add: runCallback_def reconnect_def)
qed (simp_all add: runCallback_def)

lemma handlesOk_fire: "handlesOk s \<Longrightarrow> handlesOk (fire h s)"
  by (simp add: fire_def handlesOk_runCallback handlesOk_clearInterval split: option.splits)

lemma step_handlesOk:
  assumes "handlesOk s"
  shows "handlesOk (step s e)"
proof (cases e)
  case (Fire h)
  then show ?thesis using assms by (simp add: step_def handlesOk_fire)
next
  case (AnimationFrame mt)
  have "handlesOk (animationFrame mt s) = handlesOk s"
    by (rule handlesOk_frame) simp_all
  then show ?thesis using assms AnimationFrame by (simp add: step_def)
next
  case BlobReady
  have "handlesOk (processFrameWithBackend Blob (s\<lparr>pendingBlobs := pendingBlobs s - 1\<rparr>))
          = handlesOk (s\<lparr>pendingBlobs := pendingBlobs s - 1\<rparr>)"
    by (rule handlesOk_frame) simp_all
  then show ?thesis using assms BlobReady by (simp add: step_def)
next
  case (BlobFailed m)
  have "handlesOk (processFrameWithBackend (NullBlob m) (s\<lparr>pendingBlobs := pendingBlobs s - 1\<rparr>))
          = handlesOk (s\<lparr>pendingBlobs := pendingBlobs s - 1\<rparr>)"
    by (rule handlesOk_frame) simp_all
  then show ?thesis using assms BlobFailed by (simp add: step_def)
next
  case (FetchSettled r clk)
  have "handlesOk (settleRequest clk r (s\<lparr>inFlight := inFlight s - 1\<rparr>))
          = handlesOk (s\<lparr>inFlight := inFlight s - 1\<rparr>)"
    by (rule handlesOk_frame) simp_all
  then show ?thesis using assms FetchSettled by (simp add: step_def)
next
  case (SocketOpen n)
  then show ?thesis using assms by (simp add: step_def handlesOk_onopen)
next
  case (SocketClose n)
  then show ?thesis using assms by (simp add: step_def handlesOk_onclose)
next
  case (SocketError n msg)
  then show ?thesis using assms by (simp add: step_def onerror_def)
next
  case (SocketMessage n m clk)
  have "handlesOk (handleMessage clk m s) = handlesOk s"
    by (rule handlesOk_frame) simp_all
  then show ?thesis using assms SocketMessage by (simp add: step_def)
next
  case (VisibilityChange hidden)
  then show ?thesis using assms by (simp add: step_def)
next
  case ToggleCamera
  then show ?thesis using assms by (simp add: step_def handlesOk_stopCamera)
next
  case CameraGranted
  then show ?thesis using assms by (simp add: step_def)
next
  case (CameraDenied m)
  then show ?thesis using assms by (simp add: step_def)
next
  case (CanPlay fps)
  then show ?thesis using assms by (simp add: step_def oncanplay_def handlesOk_startPeriodicProcessing)
next
  case (SpeedInput fps)
  then show ?thesis
    using assms by (simp add: step_def updateProcessingSpeed_def handlesOk_startPeriodicProcessing)
next
  case RemoveAllClick
  have "handlesOk (removeAllCards s) = handlesOk s"
    by (rule handlesOk_frame) simp_all
  then show ?thesis using assms RemoveAllClick by (simp add: step_def)
next
  case (KeepClick key)
  have "handlesOk (toggleKeepCard key s) = handlesOk s"
    by (rule handlesOk_frame) simp_all
  then show ?thesis using assms KeepClick by (simp add: step_def)
next
  case (RemoveClick key)
  have "handlesOk (removeCard key s) = handlesOk s"
    by (rule handlesOk_frame) simp_all
  then show ?thesis using assms RemoveClick by (simp add: step_def)
next
  case BeforeUnload
  then show ?thesis using assms by (simp add: step_def handlesOk_cleanup)
qed

lemma foldl_step_handlesOk: "handlesOk s \<Longrightarrow> handlesOk (foldl step s evs)"
  by (induction evs arbitrary: s) (simp_all add: step_handlesOk)

lemma run_handlesOk: "handlesOk (run evs)"
  unfolding run_def
  by (rule foldl_step_handlesOk)
     (simp add: handlesOk_def constructor_def fresh_def setTimeout_def startBackendHealthCheck_def
        setInterval_def connectWebSocket_def)

lemma pendingReconnects_stopHeartbeat:
  assumes "handlesOk s"
  shows "pendingReconnects (stopHeartbeat s) = pendingReconnects s"
proof (cases "heartbeatInterval s")
  case None
  then show ?thesis by (simp add: stopHeartbeat_def)
next
  case (Some h)
  have "\<forall>p \<in> set (timers s). callback (snd p) = Reconnect \<longrightarrow> fst p \<noteq> h"
    using assms Some by (auto simp: handlesOk_def list_all_iff)
  then have "filter (\<lambda>t. callback (snd t) = Reconnect) (filter (\<lambda>t. fst t \<noteq> h) (timers s))
               = filter (\<lambda>t. callback (snd t) = Reconnect) (timers s)"
    by (auto intro: filter_cong)
  then show ?thesis
    using Some by (simp add: stopHeartbeat_def clearInterval_def pendingReconnects_def)
qed

lemma pendingReconnects_onclose:
  assumes "handlesOk s"
  shows "pendingReconnects (onclose s) = pendingReconnects s + 1"
proof -
  let ?s1 = "logMessage DisconnectedFromServer Info (s\<lparr>isConnected := False\<rparr>)"
  have ok1: "handlesOk ?s1" using assms by simp
  have "pendingReconnects (stopHeartbeat ?s1) = pendingReconnects ?s1"
    by (rule pendingReconnects_stopHeartbeat [OF ok1])
  also have "\<dots> = pendingReconnects s"
    by (simp add: pendingReconnects_def)
  finally have "pendingReconnects (stopHeartbeat ?s1) = pendingReconnects s" .
  then show ?thesis
    by (simp add: onclose_def setTimeout_def pendingReconnects_def)
qed

text \<open>
  C5, as the code has it. In every state the controller can reach, the close event of a
  socket adds exactly one reconnect timeout, with the delay 3000 ms, to those already
  pending: the timeouts are not kept to one. An error event of a socket leaves the timers
  as they are. When a reconnect timeout fires it connects again if the controller is
  still disconnected, and does nothing if it is connected.
\<close>

theorem reconnect_scheduling:
  assumes "map_of (sockets (run evs)) n \<noteq> None"
  shows "pendingReconnects (step (run evs) (SocketClose n)) = pendingReconnects (run evs) + 1
       \<and> (\<exists>others h. timers (step (run evs) (SocketClose n))
              = others @ [(h, \<lparr>callback = Reconnect, delay = 3000, repeats = False\<rparr>)])
       \<and> timers (step (run evs) (SocketError n msg)) = timers (run evs)
       \<and> (isConnected s \<longrightarrow> runCallback Reconnect s = s)
       \<and> (\<not> isConnected s \<longrightarrow>
            runCallback Reconnect s = connectWebSocket (logMessage AttemptingReconnect Info s))"
proof -
  let ?s = "(run evs)\<lparr>sockets := AList.delete n (sockets (run evs))\<rparr>"
  have st: "step (run evs) (SocketClose n) = onclose ?s"
    using assms by (simp add: step_def)
  have okay: "handlesOk ?s"
    using run_handlesOk [of evs] by simp
  have count: "pendingReconnects (onclose ?s) = pendingReconnects (run evs) + 1"
    using pendingReconnects_onclose [OF okay] by (simp add: pendingReconnects_def)
  have new: "\<exists>others h. timers (onclose ?s)
              = others @ [(h, \<lparr>callback = Reconnect, delay = 3000, repeats = False\<rparr>)]"
    by (simp add: onclose_def setTimeout_def)
  have err: "timers (step (run evs) (SocketError n msg)) = timers (run evs)"
    by (simp add: step_def)
  show ?thesis
    unfolding st using count new err by (simp add: runCallback_def reconnect_def)
qed

theorem reconnect_scheduling_witness:
  "map_of (sockets (run [SocketClose 0, VisibilityChange False])) 1 \<noteq> None
   \<and> pendingReconnects (run [SocketClose 0, VisibilityChange False]) = 1
   \<and> pendingReconnects (step (run [SocketClose 0, VisibilityChange False]) (SocketClose 1)) = 2
   \<and> isConnected (run [SocketOpen 0])
   \<and> runCallback Reconnect (run [SocketOpen 0]) = run [SocketOpen 0]
   \<and> \<not> isConnected (run [SocketClose 0])
   \<and> sockets (runCallback Reconnect (run [SocketClose 0])) = [(1, CONNECTING)]"
proof -
  let ?evs = "[SocketClose 0, VisibilityChange False]"
  have sock: "map_of (sockets (run ?evs)) 1 \<noteq> None"
    and one: "pendingReconnects (run ?evs) = 1"
    by (simp_all add: run_def step_def constructor_def fresh_def connectWebSocket_def
          startBackendHealthCheck_def setInterval_def setTimeout_def onclose_def stopHeartbeat_def
          logMessage_def pendingReconnects_def)
  have up: "isConnected (run [SocketOpen 0])"
    by (simp add: run_def step_def constructor_def fresh_def connectWebSocket_def
          startBackendHealthCheck_def setInterval_def setTimeout_def onopen_def startHeartbeat_def
          logMessage_def)
  have down: "\<not> isConnected (run [SocketClose 0])"
    and none: "sockets (run [SocketClose 0]) = []"
    and next_socket: "nextSocket (run [SocketClose 0]) = 1"
    by (simp_all add: run_def step_def constructor_def fresh_def connectWebSocket_def
          startBackendHealthCheck_def setInterval_def setTimeout_def onclose_def stopHeartbeat_def
          logMessage_def)
  have again: "runCallback Reconnect (run [SocketClose 0])
                 = connectWebSocket (logMessage AttemptingReconnect Info (run [SocketClose 0]))"
    using reconnect_scheduling [OF sock, where s = "run [SocketClose 0]"] down by simp
  have opened: "sockets (runCallback Reconnect (run [SocketClose 0])) = [(1, CONNECTING)]"
    unfolding again by (simp add: connectWebSocket_def logMessage_def none next_socket)
  show ?thesis
    using reconnect_scheduling [OF sock, where s = "run [SocketOpen 0]"] sock one up down opened
    by simp
qed

text \<open>
  The claim as stated fails: the first socket closes, the page becomes visible again and
  a second socket is opened, and it closes within the three seconds; two reconnect timeouts
  are pending.
\<close>

theorem two_pending_reconnects_counterexample:
  "pendingReconnects (run [SocketClose 0, VisibilityChange False, SocketClose 1]) = 2"
  by (simp add: run_def step_def constructor_def fresh_def connectWebSocket_def
        startBackendHealthCheck_def setInterval_def setTimeout_def onclose_def stopHeartbeat_def
        logMessage_def pendingReconnects_def)


text \<open>
  C6 does not hold of \<open>cleanup\<close>. It clears the capture interval, the health-check
  interval and the stored heartbeat interval, and leaves a pending reconnect timeout in the
  timer table. Here the connectivity test has run, the socket has failed to connect and
  its reconnect timeout is pending when the page unloads: after \<open>cleanup\<close> the timeout
  is still there, and when it fires a new socket is opened. When the socket is open at
  teardown, \<open>this.ws.close()\<close> leads to its close event, which schedules the timeout
  after \<open>cleanup\<close> has returned.
\<close>

theorem cleanup_leaves_reconnect_timer:
  "timers (run [Fire 2, SocketClose 0, BeforeUnload])
     = [(3, \<lparr>callback = Reconnect, delay = 3000, repeats = False\<rparr>)]
   \<and> sockets (run [Fire 2, SocketClose 0, BeforeUnload]) = []
   \<and> sockets (run [Fire 2, SocketClose 0, BeforeUnload, Fire 3]) = [(1, CONNECTING)]
   \<and> timers (run [Fire 2, SocketOpen 0, BeforeUnload]) = []
   \<and> timers (run [Fire 2, SocketOpen 0, BeforeUnload, SocketClose 0])
       = [(4, \<lparr>callback = Reconnect, delay = 3000, repeats = False\<rparr>)]"
  by (simp add: run_def step_def constructor_def fresh_def connectWebSocket_def
        startBackendHealthCheck_def setInterval_def setTimeout_def onclose_def onopen_def
        startHeartbeat_def stopHeartbeat_def logMessage_def fire_def runCallback_def
        clearInterval_def reconnect_def cleanup_def stopPeriodicProcessing_def
        stopBackendHealthCheck_def wsClose_def Let_def)


end
